theory Spec2Isabelle
  imports Complex_Main
begin

section \<open>Python values and errors\<close>

text \<open>
  The add-on is Python code running inside Blender.  Python floats are modelled as
  \<^typ>\<open>real\<close> numbers (rounding is not modelled), exceptions as values of
  \<open>py_error\<close>.
\<close>

datatype py_error = AttributeError | ValueError | ZeroDivisionError | RuntimeError | ReferenceError

text \<open>\<^verbatim>\<open>max(r, g, b)\<close>: the first argument is kept unless a later one is strictly greater.\<close>

definition py_max3 :: "real \<Rightarrow> real \<Rightarrow> real \<Rightarrow> real" where
  "py_max3 r g b =
     (let m = r;
          m = (if g > m then g else m);
          m = (if b > m then b else m)
      in m)"

text \<open>\<^verbatim>\<open>range(start, stop, step)\<close> for a positive step.\<close>

definition py_range_step :: "nat \<Rightarrow> nat \<Rightarrow> nat \<Rightarrow> nat list" where
  "py_range_step start stop step =
     map (\<lambda>k. start + step * k) [0..<(stop - start + step - 1) div step]"

text \<open>\<^verbatim>\<open>xs[i:j]\<close> for non-negative bounds.\<close>

definition py_slice :: "'a list \<Rightarrow> nat \<Rightarrow> nat \<Rightarrow> 'a list" where
  "py_slice xs i j = take (j - i) (drop i xs)"

text \<open>\<^verbatim>\<open>r, g, b, a = seq\<close>: unpacking raises ValueError unless \<open>seq\<close> has four items.\<close>

fun unpack4 :: "real list \<Rightarrow> py_error + (real \<times> real \<times> real \<times> real)" where
  "unpack4 [r, g, b, a] = Inr (r, g, b, a)"
| "unpack4 _ = Inl ValueError"

section \<open>Image post-processing\<close>

text \<open>
  The loop of \<^verbatim>\<open>make_shadow_plane\<close> (lines 356-362), repeated verbatim in
  \<^verbatim>\<open>OBJECT_OT_bake_shadow_texture.execute\<close> (lines 487-494), over the flat list
  \<^verbatim>\<open>[r,g,b,a, r,g,b,a, ...]\<close>:
  \<^verbatim>\<open>
    for i in range(0, len(pixels), 4):
        r, g, b, a = pixels[i:i+4]
        pixels[i] = 0.0
        pixels[i+1] = 0.0
        pixels[i+2] = 0.0
        pixels[i+3] = 1-max(r, g, b)
  \<close>
\<close>

fun binarize_loop :: "nat list \<Rightarrow> real list \<Rightarrow> py_error + real list" where
  "binarize_loop [] pixels = Inr pixels"
| "binarize_loop (i # is) pixels =
     (case unpack4 (py_slice pixels i (i + 4)) of
        Inl e \<Rightarrow> Inl e
      | Inr (r, g, b, a) \<Rightarrow>
          binarize_loop is
            (pixels[i := 0, i + 1 := 0, i + 2 := 0, i + 3 := 1 - py_max3 r g b]))"

definition binarize :: "real list \<Rightarrow> py_error + real list" where
  "binarize pixels = binarize_loop (py_range_step 0 (length pixels) 4) pixels"

text \<open>An image seen as a list of RGBA pixels, and its flat channel list.\<close>

type_synonym rgba = "real \<times> real \<times> real \<times> real"

definition flatten_px :: "rgba list \<Rightarrow> real list" where
  "flatten_px img = concat (map (\<lambda>(r, g, b, a). [r, g, b, a]) img)"

section \<open>Vectors and matrices (mathutils)\<close>

type_synonym vec3 = "real \<times> real \<times> real"
type_synonym row4 = "real \<times> real \<times> real \<times> real"
type_synonym mat4 = "row4 \<times> row4 \<times> row4 \<times> row4"

fun vec_x :: "vec3 \<Rightarrow> real" where "vec_x (x, y, z) = x"
fun vec_y :: "vec3 \<Rightarrow> real" where "vec_y (x, y, z) = y"
fun vec_z :: "vec3 \<Rightarrow> real" where "vec_z (x, y, z) = z"

fun vec_add :: "vec3 \<Rightarrow> vec3 \<Rightarrow> vec3" where
  "vec_add (a, b, c) (x, y, z) = (a + x, b + y, c + z)"

fun vec_sub :: "vec3 \<Rightarrow> vec3 \<Rightarrow> vec3" where
  "vec_sub (a, b, c) (x, y, z) = (a - x, b - y, c - z)"

text \<open>Componentwise product, as a scale acts on a point.\<close>

fun vec_mul :: "vec3 \<Rightarrow> vec3 \<Rightarrow> vec3" where
  "vec_mul (a, b, c) (x, y, z) = (a * x, b * y, c * z)"

text \<open>\<^verbatim>\<open>v / n\<close> for a vector and a number: ZeroDivisionError when \<open>n\<close> is 0.\<close>

fun vec_div :: "vec3 \<Rightarrow> real \<Rightarrow> py_error + vec3" where
  "vec_div (x, y, z) n = (if n = 0 then Inl ZeroDivisionError else Inr (x / n, y / n, z / n))"

text \<open>
  \<^verbatim>\<open>mat @ vec\<close> of a 4x4 matrix and a 3D vector: the vector is extended by \<open>w = 1\<close> and
  the first three components of the product are returned.
\<close>

fun row_dot :: "row4 \<Rightarrow> vec3 \<Rightarrow> real" where
  "row_dot (a, b, c, d) (x, y, z) = a * x + b * y + c * z + d"

fun mat_mul_vec :: "mat4 \<Rightarrow> vec3 \<Rightarrow> vec3" where
  "mat_mul_vec (r0, r1, r2, r3) v = (row_dot r0 v, row_dot r1 v, row_dot r2 v)"

text \<open>\<^verbatim>\<open>mat.translation\<close>: the first three entries of the last column.\<close>

fun translation :: "mat4 \<Rightarrow> vec3" where
  "translation ((a0, b0, c0, tx), (a1, b1, c1, ty), (a2, b2, c2, tz), r3) = (tx, ty, tz)"

definition identity_matrix :: mat4 where
  "identity_matrix = ((1, 0, 0, 0), (0, 1, 0, 0), (0, 0, 1, 0), (0, 0, 0, 1))"

text \<open>
  The point whose image under the affine matrix is \<open>p\<close> (Cramer's rule on the upper left
  3x3 block); the host uses it to express a world-space point in an object's local space.
  A singular matrix has no such point: the division by the zero determinant yields 0 here,
  and nothing is proved about that case.
\<close>

definition det3 :: "vec3 \<Rightarrow> vec3 \<Rightarrow> vec3 \<Rightarrow> real" where
  "det3 u v w =
     vec_x u * (vec_y v * vec_z w - vec_z v * vec_y w)
     - vec_y u * (vec_x v * vec_z w - vec_z v * vec_x w)
     + vec_z u * (vec_x v * vec_y w - vec_y v * vec_x w)"

fun world_to_local :: "mat4 \<Rightarrow> vec3 \<Rightarrow> vec3" where
  "world_to_local ((a0, b0, c0, tx), (a1, b1, c1, ty), (a2, b2, c2, tz), r3) (px, py, pz) =
     (let d = det3 (a0, b0, c0) (a1, b1, c1) (a2, b2, c2);
          qx = px - tx; qy = py - ty; qz = pz - tz
      in (det3 (qx, b0, c0) (qy, b1, c1) (qz, b2, c2) / d,
          det3 (a0, qx, c0) (a1, qy, c1) (a2, qz, c2) / d,
          det3 (a0, b0, qx) (a1, b1, qy) (a2, b2, qz) / d))"

section \<open>More of Python\<close>

text \<open>\<^verbatim>\<open>min(xs)\<close> and \<^verbatim>\<open>max(xs)\<close> of a list: ValueError on an empty one.\<close>

fun py_min :: "real list \<Rightarrow> py_error + real" where
  "py_min [] = Inl ValueError"
| "py_min (x # xs) = Inr (fold (\<lambda>y m. if y < m then y else m) xs x)"

fun py_max :: "real list \<Rightarrow> py_error + real" where
  "py_max [] = Inl ValueError"
| "py_max (x # xs) = Inr (fold (\<lambda>y m. if y > m then y else m) xs x)"

text \<open>\<^verbatim>\<open>math.radians\<close>.\<close>

definition radians :: "real \<Rightarrow> real" where
  "radians d = d * (pi / 180)"

text \<open>The decimal digits of a number, for \<^verbatim>\<open>f"Shadow_Sun_{i+1}"\<close>.\<close>

fun string_of_nat :: "nat \<Rightarrow> string" where
  "string_of_nat n =
     (if n < 10 then [char_of (48 + n)]
      else string_of_nat (n div 10) @ [char_of (48 + n mod 10)])"

text \<open>\<^verbatim>\<open>os.path.join(a, b)\<close> on a POSIX system.\<close>

definition path_join :: "string \<Rightarrow> string \<Rightarrow> string" where
  "path_join a b =
     (if b \<noteq> [] \<and> hd b = CHR ''/'' then b
      else if a = [] \<or> last a = CHR ''/'' then a @ b
      else a @ ''/'' @ b)"

section \<open>The host's scene\<close>

text \<open>
  The add-on works on Blender's scene through \<^verbatim>\<open>bpy\<close>.  An object of the scene is a
  record of the attributes the add-on reads and writes; \<open>oid\<close> is the identity of the
  Python reference.  \<open>matrix_world\<close>, \<open>bound_box\<close> (always eight corners) and
  \<open>dimensions\<close> are attributes the host evaluates; the add-on only reads them.
  Rotations, parents and materials' node trees are not modelled.
\<close>

datatype obj_type = MESH | LIGHT | EMPTY | CAMERA

type_synonym bbox = "vec3 \<times> vec3 \<times> vec3 \<times> vec3 \<times> vec3 \<times> vec3 \<times> vec3 \<times> vec3"

fun bbox_corners :: "bbox \<Rightarrow> vec3 list" where
  "bbox_corners (c0, c1, c2, c3, c4, c5, c6, c7) = [c0, c1, c2, c3, c4, c5, c6, c7]"

record object =
  oid :: nat
  name :: string
  otype :: obj_type
  location :: vec3
  scale :: vec3
  mesh_verts :: "vec3 list"
  matrix_world :: mat4
  bound_box :: bbox
  dimensions :: vec3
  hide_render :: bool
  selected :: bool
  material_image :: "nat option"
  sun_energy :: real
  sun_angle :: real

datatype context_mode = OBJECT | EDIT_MESH

datatype op_result = FINISHED | CANCELLED

record render_settings =
  engine :: string
  bake_type :: string
  device :: string
  samples :: nat
  use_selected_to_active :: bool

record image =
  image_name :: string
  width :: nat
  height :: nat
  pixels :: "real list"

text \<open>
  The scene: its objects in creation order, the images, the context (mode, 3D cursor,
  active object), the render settings, the add-on's scene properties (\<^verbatim>\<open>PROPS\<close>), and
  what an operator leaves behind: the files written and the messages reported.
  \<open>random_calls\<close> counts the calls of \<^verbatim>\<open>random.random()\<close> so far.
\<close>

record scene =
  objects :: "object list"
  images :: "image list"
  next_oid :: nat
  mode :: context_mode
  cursor_location :: vec3
  active_object :: "nat option"
  render :: render_settings
  random_calls :: nat
  files :: "string list"
  reports :: "(string \<times> string) list"
  numLights :: int
  simetric :: bool
  strength :: real
  angle :: real
  pathToFile :: string
  targetObj :: "nat option"
  Collection :: "nat list option"
  measurements :: string

text \<open>
  What the add-on cannot decide is a parameter: the random source, the file system, the
  renderer's bake (it raises, or gives the baked value of every channel), the glTF exporter
  (it raises, or writes the file), and the host's evaluation of an object's world matrix,
  bounding box and dimensions.
\<close>

record host =
  random :: "nat \<Rightarrow> real"
  isdir :: "string \<Rightarrow> bool"
  bake_shadow :: "scene \<Rightarrow> py_error + (nat \<Rightarrow> real)"
  export_gltf :: "string \<Rightarrow> scene \<Rightarrow> py_error option"
  evaluated :: "object \<Rightarrow> mat4 \<times> bbox \<times> vec3"

subsection \<open>The host operations the add-on calls\<close>

definition report :: "string \<Rightarrow> string \<Rightarrow> scene \<Rightarrow> scene" where
  "report level msg s = s\<lparr>reports := reports s @ [(level, msg)]\<rparr>"

definition lookup_object :: "scene \<Rightarrow> nat \<Rightarrow> object option" where
  "lookup_object s i = find (\<lambda>ob. oid ob = i) (objects s)"

definition update_object :: "nat \<Rightarrow> (object \<Rightarrow> object) \<Rightarrow> scene \<Rightarrow> scene" where
  "update_object i f s = s\<lparr>objects := map (\<lambda>ob. if oid ob = i then f ob else ob) (objects s)\<rparr>"

text \<open>\<^verbatim>\<open>bpy.ops.object.mode_set(mode='OBJECT')\<close>.\<close>

definition mode_set_object :: "scene \<Rightarrow> scene" where
  "mode_set_object s = s\<lparr>mode := OBJECT\<rparr>"

text \<open>\<^verbatim>\<open>bpy.ops.object.select_all(action='DESELECT')\<close> and \<^verbatim>\<open>obj.select_set(True)\<close>.\<close>

definition select_all_deselect :: "scene \<Rightarrow> scene" where
  "select_all_deselect s = s\<lparr>objects := map (\<lambda>ob. ob\<lparr>selected := False\<rparr>) (objects s)\<rparr>"

definition select_set :: "nat \<Rightarrow> bool \<Rightarrow> scene \<Rightarrow> scene" where
  "select_set i b s = update_object i (\<lambda>ob. ob\<lparr>selected := b\<rparr>) s"

text \<open>\<^verbatim>\<open>bpy.data.objects.remove(obj, do_unlink=True)\<close>.\<close>

definition objects_remove :: "nat \<Rightarrow> scene \<Rightarrow> scene" where
  "objects_remove i s =
     s\<lparr>objects := filter (\<lambda>ob. oid ob \<noteq> i) (objects s),
       active_object := (if active_object s = Some i then None else active_object s)\<rparr>"

text \<open>\<^verbatim>\<open>bpy.context.view_layer.update()\<close>: the host evaluates every object again.\<close>

definition evaluate_object :: "host \<Rightarrow> object \<Rightarrow> object" where
  "evaluate_object h ob =
     (case evaluated h ob of
        (m, bb, d) \<Rightarrow> ob\<lparr>matrix_world := m, bound_box := bb, dimensions := d\<rparr>)"

definition view_layer_update :: "host \<Rightarrow> scene \<Rightarrow> scene" where
  "view_layer_update h s = s\<lparr>objects := map (evaluate_object h) (objects s)\<rparr>"

text \<open>
  \<^verbatim>\<open>bpy.ops.object.origin_set(type='ORIGIN_CURSOR')\<close>: the origin of every selected object
  moves to the 3D cursor.  The host expresses the cursor in the object's local space,
  subtracts that point from the mesh data, and moves the object by the same offset, so that
  the geometry stays where it is in the world.
\<close>

definition origin_set_cursor :: "scene \<Rightarrow> scene" where
  "origin_set_cursor s =
     s\<lparr>objects :=
        map (\<lambda>ob. if selected ob then
               (let cent = world_to_local (matrix_world ob) (cursor_location s);
                    moved = vec_sub (mat_mul_vec (matrix_world ob) cent)
                              (translation (matrix_world ob))
                in ob\<lparr>mesh_verts := map (\<lambda>v. vec_sub v cent) (mesh_verts ob),
                      location := vec_add (location ob) moved\<rparr>)
             else ob) (objects s)\<rparr>"

text \<open>
  \<^verbatim>\<open>bpy.ops.object.transform_apply(location=False, rotation=False, scale=True)\<close>: for
  every selected object the scale is multiplied into the mesh data and reset to 1.
\<close>

definition transform_apply_scale :: "scene \<Rightarrow> scene" where
  "transform_apply_scale s =
     s\<lparr>objects :=
        map (\<lambda>ob. if selected ob then
               ob\<lparr>mesh_verts := map (vec_mul (scale ob)) (mesh_verts ob), scale := (1, 1, 1)\<rparr>
             else ob) (objects s)\<rparr>"

text \<open>A new object, as the host makes it before the add-on sets anything.\<close>

definition new_object :: "host \<Rightarrow> nat \<Rightarrow> string \<Rightarrow> obj_type \<Rightarrow> vec3 \<Rightarrow> vec3 list \<Rightarrow> object" where
  "new_object h i nm ty loc verts =
     evaluate_object h
       \<lparr>oid = i, name = nm, otype = ty, location = loc, scale = (1, 1, 1),
        mesh_verts = verts, matrix_world = identity_matrix,
        bound_box = ((0,0,0), (0,0,0), (0,0,0), (0,0,0), (0,0,0), (0,0,0), (0,0,0), (0,0,0)),
        dimensions = (0, 0, 0), hide_render = False, selected = False,
        material_image = None, sun_energy = 0, sun_angle = 0\<rparr>"

text \<open>
  \<^verbatim>\<open>bpy.ops.mesh.primitive_plane_add(size=...)\<close>: a square of the given side in the XY
  plane, at the 3D cursor; it becomes the active and the only selected object.
\<close>

definition primitive_plane_add :: "host \<Rightarrow> real \<Rightarrow> scene \<Rightarrow> nat \<times> scene" where
  "primitive_plane_add h plane_size s =
     (let i = next_oid s;
          r = plane_size / 2;
          plane = (new_object h i ''Plane'' MESH (cursor_location s)
                     [(- r, - r, 0), (r, - r, 0), (- r, r, 0), (r, r, 0)])\<lparr>selected := True\<rparr>;
          s1 = select_all_deselect s
      in (i, s1\<lparr>objects := objects s1 @ [plane], next_oid := Suc i, active_object := Some i\<rparr>))"

text \<open>
  \<^verbatim>\<open>bpy.data.lights.new(name=name, type='SUN')\<close>, \<^verbatim>\<open>bpy.data.objects.new(name, light_data)\<close>
  and \<^verbatim>\<open>bpy.context.collection.objects.link(light_obj)\<close>.
\<close>

definition new_sun :: "host \<Rightarrow> string \<Rightarrow> real \<Rightarrow> real \<Rightarrow> scene \<Rightarrow> nat \<times> scene" where
  "new_sun h nm en ang s =
     (let i = next_oid s;
          light = (new_object h i nm LIGHT (0, 0, 0) [])\<lparr>sun_energy := en, sun_angle := ang\<rparr>
      in (i, s\<lparr>objects := objects s @ [light], next_oid := Suc i\<rparr>))"

text \<open>\<^verbatim>\<open>random.uniform(a, b)\<close> is \<^verbatim>\<open>a + (b - a) * random()\<close>.\<close>

definition random_uniform :: "host \<Rightarrow> real \<Rightarrow> real \<Rightarrow> scene \<Rightarrow> real \<times> scene" where
  "random_uniform h a b s =
     (a + (b - a) * random h (random_calls s), s\<lparr>random_calls := Suc (random_calls s)\<rparr>)"

text \<open>\<^verbatim>\<open>bpy.ops.export_scene.gltf(filepath=..., use_selection=True)\<close>: an existing file is overwritten.\<close>

definition export_scene_gltf :: "host \<Rightarrow> string \<Rightarrow> scene \<Rightarrow> (py_error + unit) \<times> scene" where
  "export_scene_gltf h filepath s =
     (case export_gltf h filepath s of
        Some e \<Rightarrow> (Inl e, s)
      | None \<Rightarrow> (Inr (), s\<lparr>files := List.insert filepath (files s)\<rparr>))"

section \<open>The add-on\<close>

subsection \<open>Constants\<close>

text \<open>\<^verbatim>\<open>MEASUREMENTS\<close>: the height range of every preset (the image names are left out).\<close>

definition MEASUREMENTS :: "(string \<times> real \<times> real) list" where
  "MEASUREMENTS =
     [(''Table'', 71 / 100, 76 / 100),
      (''Chair'', 45 / 100, 5 / 10),
      (''Hanger'', 15 / 10, 18 / 10),
      (''High table'', 1, 107 / 100),
      (''FREE (Only for exceptions)'', 0, 9999)]"

text \<open>
  The test of the panel (line 695) that shows "Within range": both bounds are strict.  It
  is the only place where the add-on compares a height with the preset.
\<close>

definition within_range :: "string \<Rightarrow> object \<Rightarrow> bool" where
  "within_range key ob =
     (case map_of MEASUREMENTS key of
        None \<Rightarrow> False
      | Some (lo, hi) \<Rightarrow> vec_z (dimensions ob) > lo \<and> vec_z (dimensions ob) < hi)"

subsection \<open>Utility functions\<close>

definition world_bbox_corners :: "object \<Rightarrow> vec3 list" where
  "world_bbox_corners obj = map (mat_mul_vec (matrix_world obj)) (bbox_corners (bound_box obj))"

definition bbox_min_max_z :: "object \<Rightarrow> py_error + (real \<times> real)" where
  "bbox_min_max_z obj =
     (let corners = world_bbox_corners obj;
          zs = map vec_z corners
      in case py_min zs of
           Inl e \<Rightarrow> Inl e
         | Inr mn \<Rightarrow> (case py_max zs of Inl e \<Rightarrow> Inl e | Inr mx \<Rightarrow> Inr (mn, mx)))"

definition compute_radius_from_dimensions :: "object \<Rightarrow> real" where
  "compute_radius_from_dimensions obj =
     (case dimensions obj of (x, y, z) \<Rightarrow> py_max3 x y z * (12 / 10))"

text \<open>
  \<^verbatim>\<open>fix_origin\<close>.  The argument is an object or \<^verbatim>\<open>None\<close>.  The guard
  \<^verbatim>\<open>obj.type != 'MESH' or obj == None\<close> reads \<^verbatim>\<open>obj.type\<close> first, which raises
  AttributeError on \<^verbatim>\<open>None\<close>; for an object the second disjunct is false.
\<close>

definition fix_origin :: "host \<Rightarrow> object option \<Rightarrow> scene \<Rightarrow> (py_error + unit) \<times> scene" where
  "fix_origin h obj s =
     (case obj of
        None \<Rightarrow> (Inl AttributeError, s)
      | Some ob \<Rightarrow>
          (if otype ob \<noteq> MESH \<or> False then (Inr (), s)
           else
             (let eps = 1 / 1000000;
                  s1 = (if mode s \<noteq> OBJECT then mode_set_object s else s);
                  bb_local = bbox_corners (bound_box ob)
              in (case py_min (map vec_z bb_local) of
                    Inl e \<Rightarrow> (Inl e, s1)
                  | Inr min_z \<Rightarrow>
                      (let bottom_verts = filter (\<lambda>v. \<bar>vec_z v - min_z\<bar> \<le> eps) bb_local;
                           bottom_verts = (if bottom_verts = []
                                           then filter (\<lambda>v. vec_z v = min_z) bb_local
                                           else bottom_verts)
                       in (case vec_div (foldl vec_add (0, 0, 0) bottom_verts)
                                  (real (length bottom_verts)) of
                             Inl e \<Rightarrow> (Inl e, s1)
                           | Inr center_local \<Rightarrow>
                               (let center_world = mat_mul_vec (matrix_world ob) center_local;
                                    prev_cursor = cursor_location s1;
                                    s2 = s1\<lparr>cursor_location := center_world\<rparr>;
                                    s3 = select_all_deselect s2;
                                    s4 = select_set (oid ob) True s3;
                                    s5 = origin_set_cursor s4;
                                    s6 = update_object (oid ob) (\<lambda>x. x\<lparr>location := (0, 0, 0)\<rparr>) s5;
                                    s7 = s6\<lparr>cursor_location := prev_cursor\<rparr>;
                                    s8 = view_layer_update h s7;
                                    s9 = transform_apply_scale s8
                                in (Inr (), s9))))))))"

subsection \<open>Scene builder\<close>

definition create_plane_at :: "host \<Rightarrow> object \<Rightarrow> real \<Rightarrow> scene \<Rightarrow> (py_error + nat) \<times> scene" where
  "create_plane_at h obj side_length s =
     (let (plane, s1) = primitive_plane_add h 1 s;
          s2 = update_object plane (\<lambda>x. x\<lparr>name := name obj @ ''_shadow_plane''\<rparr>) s1;
          scale_factor = side_length / 2;
          s3 = update_object plane (\<lambda>x. x\<lparr>scale := (scale_factor, scale_factor, 1)\<rparr>) s2
      in (case bbox_min_max_z obj of
            Inl e \<Rightarrow> (Inl e, s3)
          | Inr (bbox_min_z, bbox_max_z) \<Rightarrow>
              (let world_center = translation (matrix_world obj);
                   s4 = update_object plane
                          (\<lambda>x. x\<lparr>location := (vec_x world_center, vec_y world_center, bbox_min_z)\<rparr>) s3;
                   s5 = view_layer_update h s4;
                   s6 = transform_apply_scale s5
               in (Inr plane, s6))))"

text \<open>An image is referred to by its position in \<open>images\<close>.\<close>

definition create_image :: "string \<Rightarrow> nat \<Rightarrow> nat \<Rightarrow> scene \<Rightarrow> nat \<times> scene" where
  "create_image nm w ht s =
     (let img = \<lparr>image_name = nm, width = w, height = ht,
                 pixels = concat (replicate (w * ht) [1, 1, 1, 1])\<rparr>
      in (length (images s), s\<lparr>images := images s @ [img]\<rparr>))"

definition set_pixels :: "nat \<Rightarrow> real list \<Rightarrow> scene \<Rightarrow> scene" where
  "set_pixels i px s = s\<lparr>images := (images s)[i := (images s ! i)\<lparr>pixels := px\<rparr>]\<rparr>"

text \<open>\<^verbatim>\<open>ensure_material_with_image\<close>: only the binding of the image to the object is kept.\<close>

definition ensure_material_with_image :: "nat \<Rightarrow> nat \<Rightarrow> scene \<Rightarrow> scene" where
  "ensure_material_with_image plane img s =
     update_object plane (\<lambda>x. x\<lparr>material_image := Some img\<rparr>) s"

text \<open>
  The body of the loop of \<^verbatim>\<open>create_x_suns_around\<close> computes the azimuth of light \<open>i\<close> in
  degrees and, from it, the light's position.
\<close>

definition sun_position :: "object \<Rightarrow> real \<Rightarrow> real \<Rightarrow> real \<Rightarrow> real \<Rightarrow> vec3" where
  "sun_position obj distance obj_distance azimuth max_z =
     (let angle_rad = radians azimuth;
          x = vec_x (location obj) + (obj_distance + distance) * cos angle_rad;
          y = vec_y (location obj) + (obj_distance + distance) * sin angle_rad;
          z = max_z + 5
      in (x, y, z))"

fun suns_loop ::
  "host \<Rightarrow> object \<Rightarrow> real \<Rightarrow> real \<Rightarrow> real \<Rightarrow> nat list \<Rightarrow> nat list \<Rightarrow> scene \<Rightarrow>
   (py_error + nat list) \<times> scene" where
  "suns_loop h obj distance obj_distance angle_increment [] lights s = (Inr lights, s)"
| "suns_loop h obj distance obj_distance angle_increment (i # is) lights s =
     (let (angle_random_offset, s1) =
            (if simetric s then (0, s)
             else random_uniform h (- angle_increment / 4) (angle_increment / 4) s);
          azimuth = real i * angle_increment + angle_random_offset
      in (case bbox_min_max_z obj of
            Inl e \<Rightarrow> (Inl e, s1)
          | Inr (bbox_min_z, max_z) \<Rightarrow>
              (let nm = ''Shadow_Sun_'' @ string_of_nat (i + 1);
                   (light_obj, s2) = new_sun h nm (strength s1) (radians (angle s1)) s1;
                   s3 = update_object light_obj
                          (\<lambda>x. x\<lparr>location :=
                                   sun_position obj distance obj_distance azimuth max_z\<rparr>) s2
               in suns_loop h obj distance obj_distance angle_increment is
                    (lights @ [light_obj]) s3)))"

definition create_x_suns_around ::
  "host \<Rightarrow> object \<Rightarrow> real \<Rightarrow> scene \<Rightarrow> (py_error + nat list) \<times> scene" where
  "create_x_suns_around h obj distance s =
     (let lights = [];
          obj_distance = (if vec_x (dimensions obj) > vec_y (dimensions obj)
                          then vec_x (dimensions obj) else vec_y (dimensions obj))
      in if numLights s = 0 then (Inl ZeroDivisionError, s)
         else
           let angle_increment = 360 / real_of_int (numLights s)
           in suns_loop h obj distance obj_distance angle_increment
                [0..<nat (numLights s)] lights s)"

subsection \<open>Bake orchestrator and image post-processor\<close>

definition setup_render :: "scene \<Rightarrow> scene" where
  "setup_render s =
     s\<lparr>render := (render s)\<lparr>engine := ''CYCLES'', bake_type := ''SHADOW'', device := ''CPU'',
                              samples := 64, use_selected_to_active := False\<rparr>\<rparr>"

definition isolate_mesh_render :: "object \<Rightarrow> scene \<Rightarrow> scene" where
  "isolate_mesh_render obj s =
     (if otype obj \<noteq> MESH then s
      else
        let s1 = s\<lparr>objects := map (\<lambda>x. if otype x = MESH then x\<lparr>hide_render := True\<rparr> else x)
                                 (objects s)\<rparr>
        in update_object (oid obj) (\<lambda>x. x\<lparr>hide_render := False\<rparr>) s1)"

text \<open>Lines 331-333 of \<^verbatim>\<open>make_shadow_plane\<close>: the side length asked of \<^verbatim>\<open>create_plane_at\<close>.\<close>

definition plane_side_len :: "object \<Rightarrow> real" where
  "plane_side_len obj =
     (let radius = compute_radius_from_dimensions obj;
          side_len = radius * 4
      in if side_len \<le> 0 then 1 else side_len)"

text \<open>\<^verbatim>\<open>bpy.ops.object.bake(type='SHADOW')\<close> writes into the image of the plane's material.\<close>

definition bake :: "host \<Rightarrow> nat \<Rightarrow> scene \<Rightarrow> (py_error + unit) \<times> scene" where
  "bake h img s =
     (case bake_shadow h s of
        Inl e \<Rightarrow> (Inl e, s)
      | Inr f \<Rightarrow> (Inr (), set_pixels img (map f [0..<length (pixels (images s ! img))]) s))"

definition make_shadow_plane :: "host \<Rightarrow> object \<Rightarrow> scene \<Rightarrow> (py_error + nat) \<times> scene" where
  "make_shadow_plane h obj s =
     (let s0 = setup_render s;
          side_len = plane_side_len obj
      in (case create_plane_at h obj side_len s0 of
            (Inl e, s1) \<Rightarrow> (Inl e, s1)
          | (Inr plane, s1) \<Rightarrow>
              (let (img, s2) = create_image (name obj @ ''_shadow_tex'') 128 128 s1;
                   s3 = ensure_material_with_image plane img s2;
                   s4 = isolate_mesh_render obj s3;
                   s5 = update_object plane (\<lambda>x. x\<lparr>hide_render := False\<rparr>) s4
               in (case bake h img s5 of
                     (Inl e, s6) \<Rightarrow> (Inl e, s6)
                   | (Inr u, s6) \<Rightarrow>
                       (case binarize (pixels (images s6 ! img)) of
                          Inl e \<Rightarrow> (Inl e, s6)
                        | Inr px \<Rightarrow> (Inr plane, set_pixels img px s6))))))"

subsection \<open>Export orchestrator\<close>

text \<open>The tail shared by \<^verbatim>\<open>export_obj\<close> and \<^verbatim>\<open>OBJECT_OT_export_obj_glb.execute\<close>.\<close>

definition export_obj :: "host \<Rightarrow> object \<Rightarrow> scene \<Rightarrow> (py_error + unit) \<times> scene" where
  "export_obj h obj s =
     (case create_x_suns_around h obj 1 s of
        (Inl e, s1) \<Rightarrow> (Inl e, s1)
      | (Inr lights, s1) \<Rightarrow>
          (case make_shadow_plane h obj s1 of
             (Inl e, s2) \<Rightarrow> (Inl e, s2)
           | (Inr plane, s2) \<Rightarrow>
               (let s3 = select_all_deselect s2;
                    s4 = select_set plane True s3;
                    s5 = select_set (oid obj) True s4
                in (case export_scene_gltf h
                           (path_join (pathToFile s5) (name obj @ ''.glb'')) s5 of
                      (Inl e, s6) \<Rightarrow> (Inl e, s6)
                    | (Inr u, s6) \<Rightarrow>
                        (let s7 = objects_remove plane s6;
                             s8 = fold objects_remove lights s7
                         in (Inr (), s8))))))"

text \<open>\<^verbatim>\<open>bpy.context.scene.targetObj\<close>: the object the property points to, if it still exists.\<close>

definition target_object :: "scene \<Rightarrow> object option" where
  "target_object s = (case targetObj s of None \<Rightarrow> None | Some i \<Rightarrow> lookup_object s i)"

definition reset_pivot_poll :: "scene \<Rightarrow> bool" where
  "reset_pivot_poll s = (case target_object s of None \<Rightarrow> False | Some ob \<Rightarrow> otype ob = MESH)"

definition reset_pivot_execute :: "host \<Rightarrow> scene \<Rightarrow> (py_error + op_result) \<times> scene" where
  "reset_pivot_execute h s =
     (case fix_origin h (target_object s) s of
        (Inl e, s1) \<Rightarrow> (Inl e, s1)
      | (Inr u, s1) \<Rightarrow> (Inr FINISHED, s1))"

text \<open>\<^verbatim>\<open>OBJECT_OT_export_obj_glb.execute\<close>.\<close>

definition export_obj_glb_execute :: "host \<Rightarrow> scene \<Rightarrow> (py_error + op_result) \<times> scene" where
  "export_obj_glb_execute h s =
     (let s0 = (if mode s \<noteq> OBJECT then mode_set_object s else s)
      in case target_object s0 of
           None \<Rightarrow> (Inr CANCELLED, report ''ERROR'' ''No target object selected'' s0)
         | Some obj \<Rightarrow>
             (if \<not> isdir h (pathToFile s0) then
                (Inr CANCELLED, report ''ERROR'' ''Invalid path'' s0)
              else if otype obj \<noteq> MESH then
                (Inr CANCELLED, report ''ERROR'' ''Target object is not a mesh'' s0)
              else
                (case export_obj h obj s0 of
                   (Inl e, s1) \<Rightarrow> (Inl e, s1)
                 | (Inr u, s1) \<Rightarrow> (Inr FINISHED, s1\<lparr>active_object := Some (oid obj)\<rparr>))))"

text \<open>
  \<^verbatim>\<open>OBJECT_OT_export_collection_glb.execute\<close>.  \<open>Collection\<close> holds the references of
  \<^verbatim>\<open>all_objects\<close>; a reference is read in the scene as it is when the loop reaches it.
  The height test of the loop is commented out in the source, so it has no counterpart here.
\<close>

fun export_loop :: "host \<Rightarrow> nat list \<Rightarrow> scene \<Rightarrow> (py_error + op_result) \<times> scene" where
  "export_loop h [] s = (Inr FINISHED, s)"
| "export_loop h (m # ms) s =
     (case lookup_object s m of
        None \<Rightarrow> (Inl ReferenceError, s)
      | Some mesh \<Rightarrow>
          (if otype mesh \<noteq> MESH then
             export_loop h ms (report ''ERROR'' (name mesh @ '' is not a mesh'') s)
           else
             (case export_obj h mesh s of
                (Inl e, s1) \<Rightarrow> (Inl e, s1)
              | (Inr u, s1) \<Rightarrow> export_loop h ms s1)))"

definition export_collection_glb_execute :: "host \<Rightarrow> scene \<Rightarrow> (py_error + op_result) \<times> scene" where
  "export_collection_glb_execute h s =
     (case Collection s of
        None \<Rightarrow> (Inr CANCELLED, report ''ERROR'' ''No collection selected'' s)
      | Some all_objects \<Rightarrow>
          if \<not> isdir h (pathToFile s) then
            (Inr CANCELLED, report ''ERROR'' ''Invalid path'' s)
          else if length all_objects = 0 then
            (Inr CANCELLED, report ''ERROR'' ''Collection is empty'' s)
          else
            let meshes = filter (\<lambda>i. case lookup_object s i of
                                        None \<Rightarrow> False
                                      | Some obj \<Rightarrow> otype obj = MESH) all_objects;
                s0 = (if mode s \<noteq> OBJECT then mode_set_object s else s)
            in export_loop h meshes s0)"

section \<open>An example scene\<close>

text \<open>
  A cube of side 2 centred on the world origin, a scene that holds it, and a host whose bake
  and export succeed.  The closed examples below are stated on them and their variants.
\<close>

definition example_cube :: object where
  "example_cube =
     \<lparr>oid = 0, name = ''Cube'', otype = MESH, location = (0, 0, 0), scale = (1, 1, 1),
      mesh_verts = [(1, 1, 1), (- 1, - 1, - 1)], matrix_world = identity_matrix,
      bound_box = ((- 1, - 1, - 1), (- 1, - 1, 1), (- 1, 1, 1), (- 1, 1, - 1),
                   (1, - 1, - 1), (1, - 1, 1), (1, 1, 1), (1, 1, - 1)),
      dimensions = (2, 2, 2), hide_render = False, selected = False,
      material_image = None, sun_energy = 0, sun_angle = 0\<rparr>"

definition example_scene :: scene where
  "example_scene =
     \<lparr>objects = [example_cube], images = [], next_oid = 1, mode = OBJECT,
      cursor_location = (0, 0, 0), active_object = None,
      render = \<lparr>engine = ''BLENDER_EEVEE'', bake_type = ''COMBINED'', device = ''CPU'',
                 samples = 1, use_selected_to_active = True\<rparr>,
      random_calls = 0, files = [], reports = [],
      numLights = 4, simetric = True, strength = 5, angle = 133 / 10,
      pathToFile = ''/out'', targetObj = Some 0, Collection = None,
      measurements = ''Table''\<rparr>"

definition example_host :: host where
  "example_host =
     \<lparr>random = (\<lambda>k. 1 / 2), isdir = (\<lambda>p. p = ''/out''),
      bake_shadow = (\<lambda>s. Inr (\<lambda>k. 1)), export_gltf = (\<lambda>p s. None),
      evaluated = (\<lambda>ob. (matrix_world ob, bound_box ob, dimensions ob))\<rparr>"

text \<open>A host whose glTF exporter raises RuntimeError, whatever it is asked to export.\<close>

definition export_failing_host :: host where
  "export_failing_host = example_host\<lparr>export_gltf := (\<lambda>p s. Some RuntimeError)\<rparr>"

text \<open>
  A collection of three meshes, the scene's only objects: two tables 0.75 high, inside the
  range of the selected preset "Table", and between them one object 2 high, outside it.
  The second host's exporter raises on the first member's file only.
\<close>

definition collection_scene :: scene where
  "collection_scene =
     example_scene
       \<lparr>objects := [example_cube\<lparr>oid := 0, name := ''A'', dimensions := (1, 1, 3 / 4)\<rparr>,
                    example_cube\<lparr>oid := 1, name := ''B'', dimensions := (1, 1, 2)\<rparr>,
                    example_cube\<lparr>oid := 2, name := ''C'', dimensions := (1, 1, 3 / 4)\<rparr>],
        next_oid := 3, targetObj := None, Collection := Some [0, 1, 2]\<rparr>"

definition first_failing_host :: host where
  "first_failing_host =
     example_host\<lparr>export_gltf := (\<lambda>p s. if p = ''/out/A.glb'' then Some RuntimeError else None)\<rparr>"

text \<open>A scene is well formed when the references of its objects are distinct and older than the next one.\<close>

definition wf_scene :: "scene \<Rightarrow> bool" where
  "wf_scene s = (distinct (map oid (objects s)) \<and> list_all (\<lambda>ob. oid ob < next_oid s) (objects s))"

section \<open>Notions used in the proofs\<close>

text \<open>
  What identifies an object across the operations: its reference, type, name and location.
  The selection and visibility flags, the mesh data and the evaluated attributes may change.
\<close>

definition ident :: "object \<Rightarrow> nat \<times> obj_type \<times> string \<times> vec3" where
  "ident ob = (oid ob, otype ob, name ob, location ob)"

text \<open>The scene properties, the mode, the cursor, the files and the reports of two scenes agree.\<close>

definition same_props :: "scene \<Rightarrow> scene \<Rightarrow> bool" where
  "same_props s s' =
     (s'\<lparr>objects := objects s, images := images s, next_oid := next_oid s,
         active_object := active_object s, render := render s,
         random_calls := random_calls s\<rparr> = s)"

text \<open>
  \<open>s'\<close> holds the objects of \<open>s\<close>, identified as before and in the same order, followed by new
  objects with the fresh references \<open>ids\<close>.
\<close>

definition grown :: "scene \<Rightarrow> nat list \<Rightarrow> scene \<Rightarrow> bool" where
  "grown s ids s' =
     ((\<exists>new. map ident (objects s') = map ident (objects s) @ new \<and> map fst new = ids) \<and>
      distinct ids \<and> list_all (\<lambda>i. next_oid s \<le> i \<and> i < next_oid s') ids \<and>
      next_oid s \<le> next_oid s' \<and> same_props s s')"

text \<open>
  The azimuth, in degrees, of the light of index \<open>i\<close> when it is the \<open>k\<close>-th light made from
  scene \<open>s\<close> on: the expression \<^verbatim>\<open>i * angle_increment + angle_random_offset\<close> of
  \<^verbatim>\<open>create_x_suns_around\<close>, with the random draw the light gets.
\<close>

definition sun_azimuth :: "host \<Rightarrow> scene \<Rightarrow> real \<Rightarrow> nat \<Rightarrow> nat \<Rightarrow> real" where
  "sun_azimuth h s inc i k =
     real i * inc +
     (if simetric s then 0 else - inc / 4 + (inc / 4 - - inc / 4) * random h (random_calls s + k))"

text \<open>The file that the export of the object with reference \<open>i\<close> writes.\<close>

definition glb_path :: "scene \<Rightarrow> nat \<Rightarrow> string" where
  "glb_path s i =
     (case lookup_object s i of
        None \<Rightarrow> []
      | Some ob \<Rightarrow> path_join (pathToFile s) (name ob @ ''.glb''))"

text \<open>The references of a list that point to meshes of the scene, as the operator collects them.\<close>

definition mesh_members :: "scene \<Rightarrow> nat list \<Rightarrow> nat list" where
  "mesh_members s all_objects =
     filter (\<lambda>i. case lookup_object s i of None \<Rightarrow> False | Some obj \<Rightarrow> otype obj = MESH)
       all_objects"

section \<open>Properties of the image post-processing\<close>

lemma py_max3_max: "py_max3 r g b = max r (max g b)"
  by (auto simp: py_max3_def Let_def max_def)

lemma length_flatten_px: "length (flatten_px img) = 4 * length img"
  by (induction img) (auto simp: flatten_px_def)

lemma py_range_step_4: "py_range_step 0 (4 * n) 4 = map (\<lambda>k. 4 * k) [0..<n]"
proof -
  have "(4 * n + 4 - 1) div 4 = n" by arith
  then show ?thesis by (simp add: py_range_step_def)
qed

lemma binarize_loop_flat:
  "length done = 4 * j \<Longrightarrow>
   binarize_loop (map (\<lambda>k. 4 * k) [j..<j + length img]) (done @ flatten_px img) =
   Inr (done @ flatten_px (map (\<lambda>(r, g, b, a). (0, 0, 0, 1 - max r (max g b))) img))"
proof (induction img arbitrary: j "done")
  case Nil
  then show ?case by (simp add: flatten_px_def)
next
  case (Cons p img)
  obtain r g b a where p: "p = (r, g, b, a)" by (cases p) auto
  have up: "[j..<j + length (p # img)] = j # [Suc j..<Suc j + length img]"
  proof -
    have "[j..<j + length (p # img)] = j # [Suc j..<j + length (p # img)]"
      by (rule upt_conv_Cons) simp
    then show ?thesis by simp
  qed
  have len: "length (done @ [0, 0, 0, 1 - max r (max g b)]) = 4 * Suc j"
    using Cons.prems by simp
  have fl: "flatten_px (p # img) = [r, g, b, a] @ flatten_px img"
    by (simp add: flatten_px_def p)
  have sl: "py_slice (done @ flatten_px (p # img)) (4 * j) (4 * j + 4) = [r, g, b, a]"
    using Cons.prems by (simp add: py_slice_def fl)
  have upd: "(done @ flatten_px (p # img))[4 * j := 0, 4 * j + 1 := 0, 4 * j + 2 := 0,
        4 * j + 3 := 1 - py_max3 r g b] =
      (done @ [0, 0, 0, 1 - max r (max g b)]) @ flatten_px img"
    using Cons.prems by (simp add: fl list_update_append py_max3_max)
  have step: "binarize_loop (map (\<lambda>k. 4 * k) [j..<j + length (p # img)])
        (done @ flatten_px (p # img)) =
      binarize_loop (map (\<lambda>k. 4 * k) [Suc j..<Suc j + length img])
        ((done @ [0, 0, 0, 1 - max r (max g b)]) @ flatten_px img)"
    by (simp only: up list.map binarize_loop.simps sl unpack4.simps sum.case prod.case upd)
  have out: "done @ flatten_px (map (\<lambda>(r, g, b, a). (0, 0, 0, 1 - max r (max g b))) (p # img)) =
      (done @ [0, 0, 0, 1 - max r (max g b)]) @
      flatten_px (map (\<lambda>(r, g, b, a). (0, 0, 0, 1 - max r (max g b))) img)"
    by (simp add: flatten_px_def p)
  show ?case
    by (simp only: step out Cons.IH[OF len])
qed

lemma binarize_flatten_px:
  "binarize (flatten_px img) =
   Inr (flatten_px (map (\<lambda>(r, g, b, a). (0, 0, 0, 1 - max r (max g b))) img))"
  using binarize_loop_flat[of "[]" 0 img]
  by (simp add: binarize_def length_flatten_px py_range_step_4)

text \<open>
  Claim C1.  For every image, the post-processing loop returns normally; every output pixel
  is \<open>(0, 0, 0, 1 - max(r, g, b))\<close> of the input pixel at the same position (the output is
  the pointwise image of the input, so a pixel's result depends on that pixel only, whatever
  the order), and the output alpha lies in \<open>[0, 1]\<close> whenever the pixel's input colour
  channels do.
\<close>

theorem binarize_pointwise:
  "\<exists>out. binarize (flatten_px img) = Inr (flatten_px out) \<and>
     out = map (\<lambda>(r, g, b, a). (0, 0, 0, 1 - max r (max g b))) img \<and>
     (\<forall>k < length img.
        (case img ! k of (r, g, b, a) \<Rightarrow> {r, g, b} \<subseteq> {0..1}) \<longrightarrow>
        (case out ! k of (r', g', b', a') \<Rightarrow> a' \<in> {0..1}))"
proof -
  let ?out = "map (\<lambda>(r, g, b, a). (0::real, 0::real, 0::real, 1 - max r (max g b) :: real)) img"
  have "(case ?out ! k of (r', g', b', a') \<Rightarrow> a' \<in> {0..1})"
    if "k < length img" "case img ! k of (r, g, b, a) \<Rightarrow> {r, g, b} \<subseteq> {0..1}" for k
    using that by (cases "img ! k") (auto simp: max_def)
  then show ?thesis
    using binarize_flatten_px[of img] by blast
qed

text \<open>The scenarios of the spec: \<open>(0.9, 0.9, 0.9, 1)\<close> and \<open>(0, 0, 0, 1)\<close>.\<close>

theorem binarize_pointwise_witness:
  "binarize [9/10, 9/10, 9/10, 1, 0, 0, 0, 1] = Inr [0, 0, 0, 1/10, 0, 0, 0, 1] \<and>
   {9/10, 0 :: real} \<subseteq> {0..1} \<and> {1/10, 1 :: real} \<subseteq> {0..1}"
  using binarize_pointwise[of "[(9/10, 9/10, 9/10, 1), (0, 0, 0, 1)]"]
  by (simp add: flatten_px_def)

text \<open>
  Claim C6.  On an image whose pixels are all either \<open>(0, 0, 0, 1)\<close> or the result of the
  post-processing on \<open>(1, 1, 1, 1)\<close>, a second pass of the post-processing returns the
  image the first pass returned.
\<close>

theorem binarize_idempotent_on_binary:
  assumes "\<forall>p \<in> set img. flatten_px [p] = [0, 0, 0, 1] \<or>
             binarize [1, 1, 1, 1] = Inr (flatten_px [p])"
  shows "\<exists>once. binarize (flatten_px img) = Inr once \<and> binarize once = Inr once"
proof -
  let ?f = "\<lambda>(r, g, b, a). (0::real, 0::real, 0::real, 1 - max r (max g b) :: real)"
  have white: "binarize [1, 1, 1, 1] = Inr [0, 0, 0, 0]"
    using binarize_flatten_px[of "[(1, 1, 1, 1)]"] by (simp add: flatten_px_def)
  have px: "?f p = (0, 0, 0, 1)" if "p \<in> set img" for p
    using assms that by (cases p) (auto simp: flatten_px_def white)
  have stay: "?f (0, 0, 0, 1) = (0, 0, 0, 1)" by simp
  have mm: "map ?f (map ?f img) = map ?f img"
  proof (rule map_idI)
    fix q assume "q \<in> set (map ?f img)"
    then obtain p where "p \<in> set img" "q = ?f p" by auto
    then show "?f q = q" using px stay by simp
  qed
  have "binarize (flatten_px (map ?f img)) = Inr (flatten_px (map ?f (map ?f img)))"
    by (rule binarize_flatten_px)
  then have "binarize (flatten_px (map ?f img)) = Inr (flatten_px (map ?f img))"
    by (simp only: mm)
  then show ?thesis
    using binarize_flatten_px[of img] by blast
qed

text \<open>An image holding one pixel of each kind.\<close>

theorem binarize_idempotent_on_binary_witness:
  "binarize [0, 0, 0, 1, 0, 0, 0, 0] = Inr [0, 0, 0, 1, 0, 0, 0, 1] \<and>
   binarize [0, 0, 0, 1, 0, 0, 0, 1] = Inr [0, 0, 0, 1, 0, 0, 0, 1]"
proof -
  have white: "binarize [1, 1, 1, 1] = Inr [0, 0, 0, 0]"
    by (simp add: binarize_def py_range_step_def py_slice_def py_max3_def)
  have first: "binarize [0, 0, 0, 1, 0, 0, 0, 0] = Inr [0, 0, 0, 1, 0, 0, 0, 1]"
    by (simp add: binarize_def py_range_step_def py_slice_def py_max3_def upt_rec)
  have "\<forall>p \<in> set [(0, 0, 0, 1), (0, 0, 0, 0 :: real)]. flatten_px [p] = [0, 0, 0, 1] \<or>
             binarize [1, 1, 1, 1] = Inr (flatten_px [p])"
    by (simp add: white flatten_px_def)
  from binarize_idempotent_on_binary[OF this] first
  show ?thesis by (simp add: flatten_px_def)
qed

text \<open>
  Claim C10.  Two images with the same colour channels at every pixel give the same result,
  whatever their alpha channels are.
\<close>

theorem binarize_ignores_alpha:
  assumes "map (\<lambda>(r, g, b, a). (r, g, b)) img1 = map (\<lambda>(r, g, b, a). (r, g, b)) img2"
  shows "binarize (flatten_px img1) = binarize (flatten_px img2)"
proof -
  let ?f = "\<lambda>(r, g, b, a). (0::real, 0::real, 0::real, 1 - max r (max g b) :: real)"
  let ?h = "\<lambda>(r, g, b). (0::real, 0::real, 0::real, 1 - max r (max g b) :: real)"
  have split: "map ?f img = map ?h (map (\<lambda>(r, g, b, a). (r, g, b)) img)" for img :: "rgba list"
    by (induction img) auto
  have "map ?f img1 = map ?f img2"
    by (simp only: split[of img1] split[of img2] assms)
  then show ?thesis
    by (simp add: binarize_flatten_px)
qed

text \<open>Two one-pixel images that differ in alpha only.\<close>

theorem binarize_ignores_alpha_witness:
  "binarize [1/2, 1/4, 0, 1] = binarize [1/2, 1/4, 0, 0] \<and>
   binarize [1/2, 1/4, 0, 1] = Inr [0, 0, 0, 1/2]"
proof -
  have "binarize (flatten_px [(1/2, 1/4, 0, 1)]) = binarize (flatten_px [(1/2, 1/4, 0, 0)])"
    by (rule binarize_ignores_alpha) simp
  moreover have "binarize [1/2, 1/4, 0, 1] = Inr [0, 0, 0, 1/2]"
    by (simp add: binarize_def py_range_step_def py_slice_def py_max3_def)
  ultimately show ?thesis by (simp add: flatten_px_def)
qed

section \<open>Plane size\<close>

lemma compute_radius_eq:
  "compute_radius_from_dimensions obj =
     12 / 10 * max (vec_x (dimensions obj)) (max (vec_y (dimensions obj)) (vec_z (dimensions obj)))"
  by (cases "dimensions obj") (simp add: compute_radius_from_dimensions_def py_max3_max)

text \<open>
  Claim C2 says that the side length is \<open>max(4 * radius, 1)\<close>.  For a mesh of dimensions
  \<open>(0.1, 0.1, 0.1)\<close> the radius is 0.12 and the code asks for a plane of side 0.48, not 1:
  the floor of 1 applies only when the product is not positive.
\<close>

theorem plane_side_len_counterexample:
  "plane_side_len (example_cube\<lparr>dimensions := (1 / 10, 1 / 10, 1 / 10)\<rparr>) \<noteq>
   max (4 * compute_radius_from_dimensions (example_cube\<lparr>dimensions := (1 / 10, 1 / 10, 1 / 10)\<rparr>)) 1"
  by (simp add: plane_side_len_def compute_radius_from_dimensions_def py_max3_def example_cube_def)

text \<open>
  Claim C2, amended.  The radius is \<open>1.2 * max(dimX, dimY, dimZ)\<close>; the side length asked of
  \<^verbatim>\<open>create_plane_at\<close> is four times the radius when that is positive and 1 otherwise; it is
  always positive.
\<close>

theorem plane_side_len_positive_or_one:
  "compute_radius_from_dimensions obj =
     12 / 10 * max (vec_x (dimensions obj)) (max (vec_y (dimensions obj)) (vec_z (dimensions obj))) \<and>
   plane_side_len obj =
     (if 4 * compute_radius_from_dimensions obj \<le> 0 then 1
      else 4 * compute_radius_from_dimensions obj) \<and>
   0 < plane_side_len obj"
  by (auto simp add: compute_radius_eq plane_side_len_def Let_def max_def)

text \<open>The scenarios of the spec, dimensions \<open>(1, 1, 2)\<close> and \<open>(0, 0, 0)\<close>, and the small mesh.\<close>

theorem plane_side_len_positive_or_one_witness:
  "plane_side_len (example_cube\<lparr>dimensions := (1, 1, 2)\<rparr>) = 48 / 5 \<and>
   compute_radius_from_dimensions (example_cube\<lparr>dimensions := (1, 1, 2)\<rparr>) = 12 / 5 \<and>
   plane_side_len (example_cube\<lparr>dimensions := (0, 0, 0)\<rparr>) = 1 \<and>
   plane_side_len (example_cube\<lparr>dimensions := (1 / 10, 1 / 10, 1 / 10)\<rparr>) = 12 / 25"
  using plane_side_len_positive_or_one[of "example_cube\<lparr>dimensions := (1, 1, 2)\<rparr>"]
    plane_side_len_positive_or_one[of "example_cube\<lparr>dimensions := (0, 0, 0)\<rparr>"]
    plane_side_len_positive_or_one[of "example_cube\<lparr>dimensions := (1 / 10, 1 / 10, 1 / 10)\<rparr>"]
  by (simp add: example_cube_def)

section \<open>Pivot relocation\<close>

text \<open>
  Claim C8 says that \<^verbatim>\<open>fix_origin\<close> returns silently, changing nothing, for an argument that
  is not a mesh or is \<^verbatim>\<open>None\<close>.  It does so for an object that is not a mesh; on \<^verbatim>\<open>None\<close>
  the guard raises AttributeError.
\<close>

theorem fix_origin_none_raises:
  "fix_origin h None s = (Inl AttributeError, s) \<and>
   (otype ob \<noteq> MESH \<longrightarrow> fix_origin h (Some ob) s = (Inr (), s))"
  by (simp add: fix_origin_def)

text \<open>\<^verbatim>\<open>None\<close> and a light, in the example scene.\<close>

theorem fix_origin_none_raises_witness:
  "fix_origin example_host None example_scene = (Inl AttributeError, example_scene) \<and>
   fix_origin example_host (Some (example_cube\<lparr>otype := LIGHT\<rparr>)) example_scene =
     (Inr (), example_scene)"
  using fix_origin_none_raises[of example_host example_scene "example_cube\<lparr>otype := LIGHT\<rparr>"]
  by simp


section \<open>Plane placement\<close>

lemma py_min_Min: "py_min (x # xs) = Inr (Min (set (x # xs)))"
proof -
  have "(\<lambda>y m. if y < m then y else m) = (min :: real \<Rightarrow> real \<Rightarrow> real)"
    by (auto simp: fun_eq_iff min_def)
  then show ?thesis using Min.set_eq_fold[of x xs] by simp
qed

lemma py_max_Max: "py_max (x # xs) = Inr (Max (set (x # xs)))"
proof -
  have "(\<lambda>y m. if y > m then y else m) = (max :: real \<Rightarrow> real \<Rightarrow> real)"
    by (auto simp: fun_eq_iff max_def)
  then show ?thesis using Max.set_eq_fold[of x xs] by simp
qed

lemma world_bbox_corners_Cons:
  "\<exists>c cs. world_bbox_corners obj = c # cs"
proof -
  have "world_bbox_corners obj \<noteq> []"
    by (cases "bound_box obj" rule: bbox_corners.cases) (simp add: world_bbox_corners_def)
  then show ?thesis by (simp add: neq_Nil_conv)
qed

lemma update_new_object:
  assumes "list_all (\<lambda>ob. oid ob < i) xs" "oid p = i"
  shows "map (\<lambda>ob. if oid ob = i then f ob else ob) (xs @ [p]) = xs @ [f p]"
proof -
  have "map (\<lambda>ob. if oid ob = i then f ob else ob) xs = xs"
    using assms(1) by (induction xs) auto
  then show ?thesis using assms(2) by simp
qed

lemma update_object_snoc:
  assumes "list_all (\<lambda>ob. oid ob < i) xs" "oid p = i" "objects S = xs @ [p]"
  shows "update_object i f S = S\<lparr>objects := xs @ [f p]\<rparr>"
  unfolding update_object_def assms(3) using update_new_object[OF assms(1,2)] by simp

lemma unselected_map:
  assumes "list_all (\<lambda>ob. \<not> selected ob) xs"
  shows "map (\<lambda>ob. if selected ob then g ob else ob) xs = xs"
  using assms by (induction xs) auto


lemma bbox_min_max_z_eq:
  "bbox_min_max_z obj =
     Inr (Min (vec_z ` set (world_bbox_corners obj)), Max (vec_z ` set (world_bbox_corners obj)))"
proof -
  obtain c cs where c: "world_bbox_corners obj = c # cs"
    using world_bbox_corners_Cons by blast
  show ?thesis
    unfolding bbox_min_max_z_def Let_def c list.map py_min_Min py_max_Max
    by simp
qed

lemma oid_evaluate_object [simp]: "oid (evaluate_object h ob) = oid ob"
  by (simp add: evaluate_object_def split: prod.splits)
lemma selected_evaluate_object [simp]: "selected (evaluate_object h ob) = selected ob"
  by (simp add: evaluate_object_def split: prod.splits)
lemma location_evaluate_object [simp]: "location (evaluate_object h ob) = location ob"
  by (simp add: evaluate_object_def split: prod.splits)
lemma otype_evaluate_object [simp]: "otype (evaluate_object h ob) = otype ob"
  by (simp add: evaluate_object_def split: prod.splits)
lemma name_evaluate_object [simp]: "name (evaluate_object h ob) = name ob"
  by (simp add: evaluate_object_def split: prod.splits)
lemma scale_evaluate_object [simp]: "scale (evaluate_object h ob) = scale ob"
  by (simp add: evaluate_object_def split: prod.splits)
lemma mesh_verts_evaluate_object [simp]: "mesh_verts (evaluate_object h ob) = mesh_verts ob"
  by (simp add: evaluate_object_def split: prod.splits)

lemma create_plane_at_result:
  assumes "wf_scene s"
  shows "\<exists>plane. create_plane_at h obj side_length s =
      (Inr (next_oid s),
       s\<lparr>objects := map (\<lambda>ob. evaluate_object h (ob\<lparr>selected := False\<rparr>)) (objects s) @ [plane],
         next_oid := Suc (next_oid s), active_object := Some (next_oid s)\<rparr>) \<and>
      oid plane = next_oid s \<and> otype plane = MESH \<and>
      location plane = (vec_x (translation (matrix_world obj)),
                        vec_y (translation (matrix_world obj)),
                        Min (vec_z ` set (world_bbox_corners obj)))"
proof -
  define i where "i = next_oid s"
  define old where "old = map (\<lambda>ob. ob\<lparr>selected := False\<rparr>) (objects s)"
  define p0 where "p0 = (new_object h i ''Plane'' MESH (cursor_location s)
      [(- (1 / 2), - (1 / 2), 0), (1 / 2, - (1 / 2), 0), (- (1 / 2), 1 / 2, 0), (1 / 2, 1 / 2, 0)])
        \<lparr>selected := True\<rparr>"
  define S where "S = s\<lparr>next_oid := Suc i, active_object := Some i\<rparr>"
  have old: "list_all (\<lambda>ob. oid ob < i) old"
    using assms by (simp add: wf_scene_def list_all_iff old_def i_def)
  have p0: "oid p0 = i" "otype p0 = MESH" "selected p0"
    by (simp_all add: p0_def new_object_def)
  have s1: "primitive_plane_add h 1 s = (i, S\<lparr>objects := old @ [p0]\<rparr>)"
    by (simp add: primitive_plane_add_def Let_def select_all_deselect_def old_def p0_def
        i_def S_def)
  define f where "f = (\<lambda>x::object. x\<lparr>name := name obj @ ''_shadow_plane'',
      scale := (side_length / 2, side_length / 2, 1),
      location := (vec_x (translation (matrix_world obj)), vec_y (translation (matrix_world obj)),
                   Min (vec_z ` set (world_bbox_corners obj)))\<rparr>)"
  have s2: "update_object i (\<lambda>x. x\<lparr>name := name obj @ ''_shadow_plane''\<rparr>) (S\<lparr>objects := old @ [p0]\<rparr>)
      = S\<lparr>objects := old @ [p0\<lparr>name := name obj @ ''_shadow_plane''\<rparr>]\<rparr>"
    by (subst update_object_snoc[OF old p0(1)]) simp_all
  have s3: "update_object i (\<lambda>x. x\<lparr>scale := (side_length / 2, side_length / 2, 1)\<rparr>)
        (S\<lparr>objects := old @ [p0\<lparr>name := name obj @ ''_shadow_plane''\<rparr>]\<rparr>)
      = S\<lparr>objects := old @ [p0\<lparr>name := name obj @ ''_shadow_plane'',
            scale := (side_length / 2, side_length / 2, 1)\<rparr>]\<rparr>"
    by (subst update_object_snoc[OF old]) (simp_all add: p0)
  have s4: "update_object i (\<lambda>x. x\<lparr>location := (vec_x (translation (matrix_world obj)),
            vec_y (translation (matrix_world obj)), Min (vec_z ` set (world_bbox_corners obj)))\<rparr>)
        (S\<lparr>objects := old @ [p0\<lparr>name := name obj @ ''_shadow_plane'',
            scale := (side_length / 2, side_length / 2, 1)\<rparr>]\<rparr>)
      = S\<lparr>objects := old @ [f p0]\<rparr>"
    by (subst update_object_snoc[OF old]) (simp_all add: p0 f_def)
  define p5 where "p5 = evaluate_object h (f p0)"
  have s5: "view_layer_update h (S\<lparr>objects := old @ [f p0]\<rparr>)
      = S\<lparr>objects := map (evaluate_object h) old @ [p5]\<rparr>"
    by (simp add: view_layer_update_def p5_def)
  have unsel: "list_all (\<lambda>ob. \<not> selected ob) (map (evaluate_object h) old)"
    by (simp add: old_def list_all_iff)
  have p5: "selected p5" "oid p5 = i" "otype p5 = MESH"
    "location p5 = (vec_x (translation (matrix_world obj)), vec_y (translation (matrix_world obj)),
                   Min (vec_z ` set (world_bbox_corners obj)))"
    by (simp_all add: p5_def f_def p0)
  define p6 where "p6 = p5\<lparr>mesh_verts := map (vec_mul (scale p5)) (mesh_verts p5), scale := (1, 1, 1)\<rparr>"
  have s6: "transform_apply_scale (S\<lparr>objects := map (evaluate_object h) old @ [p5]\<rparr>)
      = S\<lparr>objects := map (evaluate_object h) old @ [p6]\<rparr>"
  proof -
    have "map (\<lambda>ob. if selected ob
                 then ob\<lparr>mesh_verts := map (vec_mul (scale ob)) (mesh_verts ob), scale := (1, 1, 1)\<rparr>
                 else ob) (map (evaluate_object h) old @ [p5]) =
          map (evaluate_object h) old @ [p6]"
      by (simp only: map_append unselected_map[OF unsel] list.map p5 if_True p6_def)
    then show ?thesis
      by (simp add: transform_apply_scale_def del: map_map map_append)
  qed
  have "create_plane_at h obj side_length s =
      (Inr i, S\<lparr>objects := map (evaluate_object h) old @ [p6]\<rparr>)"
    unfolding create_plane_at_def s1 Let_def prod.case bbox_min_max_z_eq sum.case s2 s3 s4 s5 s6
    by (rule refl)
  moreover have "S\<lparr>objects := map (evaluate_object h) old @ [p6]\<rparr> =
      s\<lparr>objects := map (\<lambda>ob. evaluate_object h (ob\<lparr>selected := False\<rparr>)) (objects s) @ [p6],
         next_oid := Suc (next_oid s), active_object := Some (next_oid s)\<rparr>"
    by (simp add: S_def old_def i_def comp_def)
  moreover have "oid p6 = next_oid s" "otype p6 = MESH"
    "location p6 = (vec_x (translation (matrix_world obj)), vec_y (translation (matrix_world obj)),
                   Min (vec_z ` set (world_bbox_corners obj)))"
    by (simp_all add: p6_def p5 i_def[symmetric])
  ultimately show ?thesis using i_def by auto
qed

section \<open>Scenes that grow\<close>

lemma same_props_refl: "same_props s s"
  by (simp add: same_props_def)

lemma same_props_trans: "same_props s s1 \<Longrightarrow> same_props s1 s2 \<Longrightarrow> same_props s s2"
  by (cases s; cases s1; cases s2) (simp add: same_props_def)

lemma same_props_fields:
  assumes "same_props s s'"
  shows "reports s' = reports s" "pathToFile s' = pathToFile s" "numLights s' = numLights s"
    "simetric s' = simetric s" "strength s' = strength s" "angle s' = angle s"
    "targetObj s' = targetObj s" "Collection s' = Collection s"
    "measurements s' = measurements s" "mode s' = mode s" "cursor_location s' = cursor_location s"
    "files s' = files s"
  using assms by (cases s; cases s'; simp add: same_props_def)+

lemma oid_ident: "oid ob = fst (ident ob)"
  by (simp add: ident_def)

lemma map_oid_ident: "map oid xs = map fst (map ident xs)"
  by (simp add: ident_def)

lemma grown_refl: "grown s [] s"
  by (simp add: grown_def same_props_refl)

lemma grown_oids:
  assumes "grown s ids s'"
  shows "map oid (objects s') = map oid (objects s) @ ids"
proof -
  from assms obtain new where "map ident (objects s') = map ident (objects s) @ new"
    "map fst new = ids" unfolding grown_def by blast
  then show ?thesis by (simp only: map_oid_ident map_append)
qed

lemma grown_trans:
  assumes "grown s a s1" "grown s1 b s2"
  shows "grown s (a @ b) s2"
proof -
  from assms(1) obtain n1 where n1: "map ident (objects s1) = map ident (objects s) @ n1"
    "map fst n1 = a" unfolding grown_def by blast
  from assms(2) obtain n2 where n2: "map ident (objects s2) = map ident (objects s1) @ n2"
    "map fst n2 = b" unfolding grown_def by blast
  have 1: "\<exists>new. map ident (objects s2) = map ident (objects s) @ new \<and> map fst new = a @ b"
    using n1 n2 by (intro exI[of _ "n1 @ n2"]) simp
  have ba: "list_all (\<lambda>i. next_oid s \<le> i \<and> i < next_oid s1) a" "distinct a"
    "next_oid s \<le> next_oid s1"
    using assms(1) unfolding grown_def by blast+
  have bb: "list_all (\<lambda>i. next_oid s1 \<le> i \<and> i < next_oid s2) b" "distinct b"
    "next_oid s1 \<le> next_oid s2"
    using assms(2) unfolding grown_def by blast+
  have 2: "distinct (a @ b)"
    using ba bb by (fastforce simp: list_all_iff)
  have 3: "list_all (\<lambda>i. next_oid s \<le> i \<and> i < next_oid s2) (a @ b)"
    using ba bb by (fastforce simp: list_all_iff)
  have 4: "same_props s s2"
    using assms same_props_trans unfolding grown_def by blast
  show ?thesis
    unfolding grown_def using 1 2 3 4 ba(3) bb(3) by simp
qed

lemma wf_grown:
  assumes "wf_scene s" "grown s ids s'"
  shows "wf_scene s'"
proof -
  have o: "map oid (objects s') = map oid (objects s) @ ids"
    using assms(2) by (rule grown_oids)
  have b: "list_all (\<lambda>i. next_oid s \<le> i \<and> i < next_oid s') ids" "distinct ids"
    "next_oid s \<le> next_oid s'"
    using assms(2) unfolding grown_def by blast+
  have old: "distinct (map oid (objects s))" "\<forall>i \<in> set (map oid (objects s)). i < next_oid s"
    using assms(1) by (auto simp: wf_scene_def list_all_iff)
  have "distinct (map oid (objects s'))"
    unfolding o using old b by (fastforce simp: list_all_iff)
  moreover have "\<forall>i \<in> set (map oid (objects s')). i < next_oid s'"
    unfolding o using old b by (fastforce simp: list_all_iff)
  ultimately show ?thesis
    by (simp add: wf_scene_def list_all_iff)
qed

lemma find_ident:
  assumes "map ident xs' = map ident xs" "find (\<lambda>ob. oid ob = i) xs = Some ob"
  shows "\<exists>ob'. find (\<lambda>ob. oid ob = i) (xs' @ ys) = Some ob' \<and> ident ob' = ident ob"
  using assms
proof (induction xs arbitrary: xs')
  case Nil
  then show ?case by simp
next
  case (Cons x xs)
  then obtain x' xs'' where x': "xs' = x' # xs''" "ident x' = ident x" "map ident xs'' = map ident xs"
    by (cases xs') auto
  have "oid x' = oid x" using x'(2) by (simp add: ident_def)
  then show ?case
    using Cons x' by (cases "oid x = i") auto
qed

lemma lookup_grown:
  assumes "grown s ids s'" "lookup_object s i = Some ob"
  shows "\<exists>ob'. lookup_object s' i = Some ob' \<and> ident ob' = ident ob"
proof -
  from assms(1) obtain new where n: "map ident (objects s') = map ident (objects s) @ new"
    unfolding grown_def by blast
  define k where "k = length (objects s)"
  have sp: "objects s' = take k (objects s') @ drop k (objects s')" by simp
  have "map ident (take k (objects s')) = map ident (objects s)"
    using n by (simp add: k_def take_map[symmetric])
  from find_ident[OF this, of i ob "drop k (objects s')"] assms(2)
  show ?thesis by (simp add: lookup_object_def)
qed

lemma grown_map_objects:
  assumes "\<And>ob. ident (g ob) = ident ob"
  shows "grown s [] (s\<lparr>objects := map g (objects s)\<rparr>)"
  using assms by (simp add: grown_def same_props_def comp_def)

lemma grown_update_object:
  assumes "\<And>ob. ident (f ob) = ident ob"
  shows "grown s [] (update_object i f s)"
  unfolding update_object_def using assms by (intro grown_map_objects) simp

lemma grown_select_all_deselect: "grown s [] (select_all_deselect s)"
  unfolding select_all_deselect_def by (intro grown_map_objects) (simp add: ident_def)

lemma grown_select_set: "grown s [] (select_set i b s)"
  unfolding select_set_def by (intro grown_update_object) (simp add: ident_def)

lemma grown_view_layer_update: "grown s [] (view_layer_update h s)"
  unfolding view_layer_update_def
  by (intro grown_map_objects) (simp add: ident_def evaluate_object_def split: prod.splits)

lemma grown_transform_apply_scale: "grown s [] (transform_apply_scale s)"
  unfolding transform_apply_scale_def by (intro grown_map_objects) (simp add: ident_def)

lemma grown_isolate_mesh_render: "grown s [] (isolate_mesh_render obj s)"
proof (cases "otype obj = MESH")
  case True
  have 1: "grown s [] (s\<lparr>objects := map (\<lambda>x. if otype x = MESH then x\<lparr>hide_render := True\<rparr> else x)
                                 (objects s)\<rparr>)"
    by (intro grown_map_objects) (simp add: ident_def)
  show ?thesis
    using grown_trans[OF 1 grown_update_object[of "\<lambda>x. x\<lparr>hide_render := False\<rparr>"]] True
    by (simp add: isolate_mesh_render_def Let_def ident_def)
next
  case False
  then show ?thesis by (simp add: isolate_mesh_render_def grown_refl)
qed

lemma grown_setup_render: "grown s [] (setup_render s)"
  by (simp add: setup_render_def grown_def same_props_def)

lemma grown_set_pixels: "grown s [] (set_pixels i px s)"
  by (simp add: set_pixels_def grown_def same_props_def)

lemma grown_ensure_material: "grown s [] (ensure_material_with_image p i s)"
  unfolding ensure_material_with_image_def by (intro grown_update_object) (simp add: ident_def)

lemma unflatten_px: "length px = 4 * k \<Longrightarrow> \<exists>img. px = flatten_px img"
proof (induction k arbitrary: px)
  case 0
  then show ?case by (intro exI[of _ "[]"]) (simp add: flatten_px_def)
next
  case (Suc k)
  then obtain r g b a rest where px: "px = r # g # b # a # rest"
    by (cases px; cases "tl px"; cases "tl (tl px)"; cases "tl (tl (tl px))") auto
  then have "length rest = 4 * k" using Suc.prems by simp
  from Suc.IH[OF this] obtain img where "rest = flatten_px img" by blast
  then have "px = flatten_px ((r, g, b, a) # img)"
    by (simp add: px flatten_px_def)
  then show ?case by blast
qed

lemma binarize_total:
  assumes "length px = 4 * k"
  shows "\<exists>out. binarize px = Inr out"
  using unflatten_px[OF assms] binarize_flatten_px by auto

lemma length_white: "length (concat (replicate n [1, 1, 1, 1 :: real])) = 4 * n"
  by (induction n) auto

lemma create_image_result:
  "\<exists>img. create_image nm w ht s = (length (images s), s\<lparr>images := images s @ [img]\<rparr>) \<and>
     length (pixels img) = 4 * (w * ht)"
  unfolding create_image_def Let_def
  by (rule exI[of _ "\<lparr>image_name = nm, width = w, height = ht,
                      pixels = concat (replicate (w * ht) [1, 1, 1, 1])\<rparr>"])
     (simp add: length_white)

lemma find_app:
  "find P (xs @ ys) = (case find P xs of None \<Rightarrow> find P ys | Some x \<Rightarrow> Some x)"
  by (induction xs) auto

lemma create_plane_at_grown:
  assumes "wf_scene s"
  shows "\<exists>p s1 plane. create_plane_at h obj side_length s = (Inr p, s1) \<and>
      grown s [p] s1 \<and> lookup_object s1 p = Some plane \<and> otype plane = MESH \<and>
      location plane = (vec_x (translation (matrix_world obj)),
                        vec_y (translation (matrix_world obj)),
                        Min (vec_z ` set (world_bbox_corners obj)))"
proof -
  let ?g = "\<lambda>ob. evaluate_object h (ob\<lparr>selected := False\<rparr>)"
  let ?L = "(vec_x (translation (matrix_world obj)), vec_y (translation (matrix_world obj)),
             Min (vec_z ` set (world_bbox_corners obj)))"
  from create_plane_at_result[OF assms, of h obj side_length]
  obtain plane where r: "create_plane_at h obj side_length s =
      (Inr (next_oid s), s\<lparr>objects := map ?g (objects s) @ [plane],
         next_oid := Suc (next_oid s), active_object := Some (next_oid s)\<rparr>)"
    and p: "oid plane = next_oid s" "otype plane = MESH" "location plane = ?L"
    by blast
  let ?s1 = "s\<lparr>objects := map ?g (objects s) @ [plane],
         next_oid := Suc (next_oid s), active_object := Some (next_oid s)\<rparr>"
  have idg: "map ident (map ?g (objects s)) = map ident (objects s)"
    by (simp add: ident_def comp_def)
  have g: "grown s [next_oid s] ?s1"
  proof -
    have "map ident (objects ?s1) = map ident (objects s) @ [ident plane] \<and>
          map fst [ident plane] = [next_oid s]"
      using idg by (simp add: ident_def p del: map_map)
    then have "\<exists>new. map ident (objects ?s1) = map ident (objects s) @ new \<and>
          map fst new = [next_oid s]" by (rule exI[of _ "[ident plane]"])
    moreover have "same_props s ?s1" by (simp add: same_props_def)
    ultimately show ?thesis unfolding grown_def by simp
  qed
  have notold: "find (\<lambda>ob. oid ob = next_oid s) (map ?g (objects s)) = None"
    using assms by (auto simp: find_None_iff wf_scene_def list_all_iff)
  have l: "lookup_object ?s1 (next_oid s) = Some plane"
    by (simp add: lookup_object_def find_app notold p del: map_map)
  have "create_plane_at h obj side_length s = (Inr (next_oid s), ?s1) \<and>
      grown s [next_oid s] ?s1 \<and> lookup_object ?s1 (next_oid s) = Some plane \<and>
      otype plane = MESH \<and> location plane = ?L"
    using r g l p by (intro conjI)
  then show ?thesis
    by (intro exI[of _ "next_oid s"] exI[of _ ?s1] exI[of _ plane])
qed

lemma images_update_object [simp]: "images (update_object i f s) = images s"
  by (simp add: update_object_def)

lemma images_isolate_mesh_render [simp]: "images (isolate_mesh_render obj s) = images s"
  by (simp add: isolate_mesh_render_def Let_def)

lemma images_ensure_material [simp]: "images (ensure_material_with_image p i s) = images s"
  by (simp add: ensure_material_with_image_def)

lemma grown_images: "grown s [] (s\<lparr>images := x\<rparr>)"
  by (simp add: grown_def same_props_def)

lemma grown_nil_trans: "grown s [] s1 \<Longrightarrow> grown s1 ids s2 \<Longrightarrow> grown s ids s2"
  using grown_trans[of s "[]" s1 ids s2] by simp

lemma grown_trans_nil: "grown s ids s1 \<Longrightarrow> grown s1 [] s2 \<Longrightarrow> grown s ids s2"
  using grown_trans[of s ids s1 "[]" s2] by simp

lemma make_shadow_plane_result:
  assumes "wf_scene s"
  shows "\<exists>p s2 sb plane.
      make_shadow_plane h obj s =
        ((case bake_shadow h sb of Inl e \<Rightarrow> Inl e | Inr f \<Rightarrow> Inr p), s2) \<and>
      grown s [p] s2 \<and> lookup_object s2 p = Some plane \<and> otype plane = MESH \<and>
      location plane = (vec_x (translation (matrix_world obj)),
                        vec_y (translation (matrix_world obj)),
                        Min (vec_z ` set (world_bbox_corners obj)))"
proof -
  let ?L = "(vec_x (translation (matrix_world obj)), vec_y (translation (matrix_world obj)),
             Min (vec_z ` set (world_bbox_corners obj)))"
  have wf0: "wf_scene (setup_render s)"
    using wf_grown[OF assms grown_setup_render] .
  from create_plane_at_grown[OF wf0, of h obj "plane_side_len obj"]
  obtain p where "\<exists>s1 plane.
      create_plane_at h obj (plane_side_len obj) (setup_render s) = (Inr p, s1) \<and>
      grown (setup_render s) [p] s1 \<and> lookup_object s1 p = Some plane \<and> otype plane = MESH \<and>
      location plane = ?L" ..
  then obtain s1 where "\<exists>plane.
      create_plane_at h obj (plane_side_len obj) (setup_render s) = (Inr p, s1) \<and>
      grown (setup_render s) [p] s1 \<and> lookup_object s1 p = Some plane \<and> otype plane = MESH \<and>
      location plane = ?L" ..
  then obtain plane where cp:
     "create_plane_at h obj (plane_side_len obj) (setup_render s) = (Inr p, s1) \<and>
      grown (setup_render s) [p] s1 \<and> lookup_object s1 p = Some plane \<and> otype plane = MESH \<and>
      location plane = ?L" ..
  note c = conjunct1[OF cp] and g1 = conjunct1[OF conjunct2[OF cp]]
    and l1 = conjunct1[OF conjunct2[OF conjunct2[OF cp]]]
    and pl = conjunct2[OF conjunct2[OF conjunct2[OF cp]]]
  define k :: nat where "k = 128 * 128"
  have "\<exists>img. create_image (name obj @ ''_shadow_tex'') 128 128 s1 =
        (length (images s1), s1\<lparr>images := images s1 @ [img]\<rparr>) \<and>
        length (pixels img) = 4 * k"
    unfolding k_def by (rule create_image_result)
  then obtain img0 where cili: "create_image (name obj @ ''_shadow_tex'') 128 128 s1 =
        (length (images s1), s1\<lparr>images := images s1 @ [img0]\<rparr>) \<and>
        length (pixels img0) = 4 * k" ..
  note ci = conjunct1[OF cili] and li = conjunct2[OF cili]
  define im where "im = length (images s1)"
  define s2 where "s2 = s1\<lparr>images := images s1 @ [img0]\<rparr>"
  define s5 where "s5 = update_object p (\<lambda>x. x\<lparr>hide_render := False\<rparr>)
      (isolate_mesh_render obj (ensure_material_with_image p im s2))"
  have g5: "grown s1 [] s5"
  proof -
    have a: "grown s1 [] s2"
      unfolding s2_def by (rule grown_images)
    have b: "grown s2 [] (ensure_material_with_image p im s2)"
      by (rule grown_ensure_material)
    have c: "grown (ensure_material_with_image p im s2) []
        (isolate_mesh_render obj (ensure_material_with_image p im s2))"
      by (rule grown_isolate_mesh_render)
    have d: "grown (isolate_mesh_render obj (ensure_material_with_image p im s2)) [] s5"
      unfolding s5_def by (rule grown_update_object) (simp add: ident_def)
    show ?thesis
      by (rule grown_nil_trans[OF a grown_nil_trans[OF b grown_nil_trans[OF c d]]])
  qed
  have im5: "images s5 = images s1 @ [img0]"
    by (simp add: s5_def s2_def)
  have gs1: "grown s [p] s1"
    using grown_nil_trans[OF grown_setup_render g1] .
  have fin: "\<exists>s2 sb.
      make_shadow_plane h obj s =
        ((case bake_shadow h sb of Inl e \<Rightarrow> Inl e | Inr f \<Rightarrow> Inr p), s2) \<and>
      grown s1 [] s2"
  proof (cases "bake_shadow h s5")
    case (Inl e)
    have "make_shadow_plane h obj s = (Inl e, s5)"
      unfolding make_shadow_plane_def Let_def c prod.case ci sum.case bake_def
        im_def[symmetric] s2_def[symmetric] s5_def[symmetric] Inl
      by simp
    then have "make_shadow_plane h obj s =
        ((case bake_shadow h s5 of Inl e \<Rightarrow> Inl e | Inr f \<Rightarrow> Inr p), s5) \<and> grown s1 [] s5"
      using g5 by (simp add: Inl)
    then show ?thesis by (intro exI[of _ s5])
  next
    case (Inr f)
    define s6 where "s6 = set_pixels im (map f [0..<length (pixels (images s5 ! im))]) s5"
    have px6: "pixels (images s6 ! im) = map f [0..<4 * k]"
      by (simp add: s6_def set_pixels_def im5 im_def li)
    then have "length (pixels (images s6 ! im)) = 4 * k" by simp
    from binarize_total[OF this] obtain px where b: "binarize (pixels (images s6 ! im)) = Inr px" ..
    have "make_shadow_plane h obj s = (Inr p, set_pixels im px s6)"
      unfolding make_shadow_plane_def Let_def c prod.case ci sum.case bake_def
        im_def[symmetric] s2_def[symmetric] s5_def[symmetric] Inr s6_def[symmetric] b
      by simp
    moreover have "grown s1 [] (set_pixels im px s6)"
    proof -
      have a: "grown s5 [] s6"
        unfolding s6_def by (rule grown_set_pixels)
      have b: "grown s6 [] (set_pixels im px s6)"
        by (rule grown_set_pixels)
      show ?thesis
        by (rule grown_nil_trans[OF g5 grown_nil_trans[OF a b]])
    qed
    ultimately have "make_shadow_plane h obj s =
        ((case bake_shadow h s5 of Inl e \<Rightarrow> Inl e | Inr f \<Rightarrow> Inr p), set_pixels im px s6) \<and>
        grown s1 [] (set_pixels im px s6)"
      by (simp add: Inr)
    then show ?thesis by (intro exI[of _ "set_pixels im px s6"] exI[of _ s5])
  qed
  then obtain s2' where "\<exists>sb. make_shadow_plane h obj s =
        ((case bake_shadow h sb of Inl e \<Rightarrow> Inl e | Inr f \<Rightarrow> Inr p), s2') \<and>
      grown s1 [] s2'" ..
  then obtain sb where mg: "make_shadow_plane h obj s =
        ((case bake_shadow h sb of Inl e \<Rightarrow> Inl e | Inr f \<Rightarrow> Inr p), s2') \<and>
      grown s1 [] s2'" ..
  note m = conjunct1[OF mg] and g2 = conjunct2[OF mg]
  from lookup_grown[OF g2 l1] obtain plane' where lid: "lookup_object s2' p = Some plane' \<and>
      ident plane' = ident plane" ..
  note l2 = conjunct1[OF lid] and id2 = conjunct2[OF lid]
  have pl': "otype plane' = MESH" "location plane' = ?L"
    using id2 pl by (simp_all add: ident_def)
  have "make_shadow_plane h obj s =
        ((case bake_shadow h sb of Inl e \<Rightarrow> Inl e | Inr f \<Rightarrow> Inr p), s2') \<and>
      grown s [p] s2' \<and> lookup_object s2' p = Some plane' \<and> otype plane' = MESH \<and>
      location plane' = ?L"
    using m grown_trans_nil[OF gs1 g2] l2 pl' by (intro conjI)
  then show ?thesis
    by (intro exI[of _ p] exI[of _ s2'] exI[of _ sb] exI[of _ plane'])
qed

lemma wf_example_scene: "wf_scene example_scene"
  by (simp add: wf_scene_def example_scene_def example_cube_def)

lemma bbox_min_example_cube: "Min (vec_z ` set (world_bbox_corners example_cube)) = - 1"
  by (simp add: world_bbox_corners_def example_cube_def identity_matrix_def)

text \<open>
  Claim C7.  In a well-formed scene, the plane that \<^verbatim>\<open>create_plane_at\<close> makes for an object
  is located at the X and Y of the object's world translation (what the code calls the
  object's world X/Y centre) and at the minimum Z of the world-space corners of its bounding
  box; the plane that \<^verbatim>\<open>make_shadow_plane\<close> returns is located there too.  These are the two
  operations that create a plane (the bake operator calls \<^verbatim>\<open>create_plane_at\<close> itself).
\<close>

theorem shadow_plane_placement:
  assumes "wf_scene s"
  shows "(\<exists>p s' plane. create_plane_at h obj side_length s = (Inr p, s') \<and>
            lookup_object s' p = Some plane \<and>
            location plane = (vec_x (translation (matrix_world obj)),
                              vec_y (translation (matrix_world obj)),
                              Min (vec_z ` set (world_bbox_corners obj)))) \<and>
         (\<forall>p s'. make_shadow_plane h obj s = (Inr p, s') \<longrightarrow>
            (\<exists>plane. lookup_object s' p = Some plane \<and>
               location plane = (vec_x (translation (matrix_world obj)),
                                 vec_y (translation (matrix_world obj)),
                                 Min (vec_z ` set (world_bbox_corners obj)))))"
proof (rule conjI)
  let ?L = "(vec_x (translation (matrix_world obj)), vec_y (translation (matrix_world obj)),
             Min (vec_z ` set (world_bbox_corners obj)))"
  from create_plane_at_grown[OF assms, of h obj side_length]
  obtain p where "\<exists>s1 plane. create_plane_at h obj side_length s = (Inr p, s1) \<and>
      grown s [p] s1 \<and> lookup_object s1 p = Some plane \<and> otype plane = MESH \<and>
      location plane = ?L" ..
  then obtain s1 where "\<exists>plane. create_plane_at h obj side_length s = (Inr p, s1) \<and>
      grown s [p] s1 \<and> lookup_object s1 p = Some plane \<and> otype plane = MESH \<and>
      location plane = ?L" ..
  then obtain plane where cp: "create_plane_at h obj side_length s = (Inr p, s1) \<and>
      grown s [p] s1 \<and> lookup_object s1 p = Some plane \<and> otype plane = MESH \<and>
      location plane = ?L" ..
  note c = conjunct1[OF cp] and l = conjunct1[OF conjunct2[OF conjunct2[OF cp]]]
    and loc = conjunct2[OF conjunct2[OF conjunct2[OF conjunct2[OF cp]]]]
  from c l loc have "create_plane_at h obj side_length s = (Inr p, s1) \<and>
      lookup_object s1 p = Some plane \<and> location plane = ?L"
    by (intro conjI)
  then show "\<exists>p s' plane. create_plane_at h obj side_length s = (Inr p, s') \<and>
      lookup_object s' p = Some plane \<and> location plane = ?L"
    by (intro exI[of _ p] exI[of _ s1] exI[of _ plane])
next
  let ?L = "(vec_x (translation (matrix_world obj)), vec_y (translation (matrix_world obj)),
             Min (vec_z ` set (world_bbox_corners obj)))"
  from make_shadow_plane_result[OF assms, of h obj]
  obtain p where "\<exists>s2 sb plane. make_shadow_plane h obj s =
        ((case bake_shadow h sb of Inl e \<Rightarrow> Inl e | Inr f \<Rightarrow> Inr p), s2) \<and>
      grown s [p] s2 \<and> lookup_object s2 p = Some plane \<and> otype plane = MESH \<and>
      location plane = ?L" ..
  then obtain s2 where "\<exists>sb plane. make_shadow_plane h obj s =
        ((case bake_shadow h sb of Inl e \<Rightarrow> Inl e | Inr f \<Rightarrow> Inr p), s2) \<and>
      grown s [p] s2 \<and> lookup_object s2 p = Some plane \<and> otype plane = MESH \<and>
      location plane = ?L" ..
  then obtain sb where "\<exists>plane. make_shadow_plane h obj s =
        ((case bake_shadow h sb of Inl e \<Rightarrow> Inl e | Inr f \<Rightarrow> Inr p), s2) \<and>
      grown s [p] s2 \<and> lookup_object s2 p = Some plane \<and> otype plane = MESH \<and>
      location plane = ?L" ..
  then obtain plane where mp: "make_shadow_plane h obj s =
        ((case bake_shadow h sb of Inl e \<Rightarrow> Inl e | Inr f \<Rightarrow> Inr p), s2) \<and>
      grown s [p] s2 \<and> lookup_object s2 p = Some plane \<and> otype plane = MESH \<and>
      location plane = ?L" ..
  note m = conjunct1[OF mp] and l = conjunct1[OF conjunct2[OF conjunct2[OF mp]]]
    and loc = conjunct2[OF conjunct2[OF conjunct2[OF conjunct2[OF mp]]]]
  show "\<forall>p' s'. make_shadow_plane h obj s = (Inr p', s') \<longrightarrow>
      (\<exists>plane. lookup_object s' p' = Some plane \<and> location plane = ?L)"
  proof (intro allI impI)
    fix p' s' assume a: "make_shadow_plane h obj s = (Inr p', s')"
    have "s' = s2" using a m by simp
    moreover have "p' = p" using a m by (cases "bake_shadow h sb") simp_all
    ultimately show "\<exists>plane. lookup_object s' p' = Some plane \<and> location plane = ?L"
      using l loc by (intro exI[of _ plane]) simp
  qed
qed

text \<open>The plane made for the example cube lies at its feet, at \<open>(0, 0, -1)\<close>.\<close>

theorem shadow_plane_placement_witness:
  "wf_scene example_scene \<and>
   (\<exists>p s' plane. create_plane_at example_host example_cube 2 example_scene = (Inr p, s') \<and>
      lookup_object s' p = Some plane \<and> location plane = (0, 0, - 1))"
  using shadow_plane_placement[OF wf_example_scene, of example_host example_cube 2]
  by (simp add: wf_example_scene bbox_min_example_cube)
     (simp add: example_cube_def identity_matrix_def)

section \<open>The light ring\<close>

lemma lookup_object_snoc:
  assumes "list_all (\<lambda>ob. oid ob < i) xs" "oid p = i"
  shows "find (\<lambda>ob. oid ob = i) (xs @ [p]) = Some p"
proof -
  have "find (\<lambda>ob. oid ob = i) xs = None"
    using assms(1) by (auto simp: find_None_iff list_all_iff)
  then show ?thesis using assms(2) by (simp add: find_app)
qed

lemma grown_snoc:
  assumes "oid p = next_oid s" "same_props s S" "objects S = objects s" "next_oid S = next_oid s"
  shows "grown s [next_oid s] (S\<lparr>objects := objects s @ [p], next_oid := Suc (next_oid s)\<rparr>)"
proof -
  let ?s' = "S\<lparr>objects := objects s @ [p], next_oid := Suc (next_oid s)\<rparr>"
  have "map ident (objects ?s') = map ident (objects s) @ [ident p] \<and>
        map fst [ident p] = [next_oid s]"
    by (simp add: ident_def assms(1))
  then have 1: "\<exists>new. map ident (objects ?s') = map ident (objects s) @ new \<and>
        map fst new = [next_oid s]"
    by (rule exI[of _ "[ident p]"])
  have 2: "same_props s ?s'"
    using assms(2) by (cases s; cases S) (simp add: same_props_def)
  show ?thesis
    unfolding grown_def using 1 2 by simp
qed

lemma suns_step:
  assumes "wf_scene s"
  shows "\<exists>s3 light.
      suns_loop h obj d od inc (i # is) L s = suns_loop h obj d od inc is (L @ [next_oid s]) s3 \<and>
      grown s [next_oid s] s3 \<and>
      random_calls s3 = random_calls s + (if simetric s then 0 else 1) \<and>
      lookup_object s3 (next_oid s) = Some light \<and> otype light = LIGHT \<and>
      location light = sun_position obj d od (sun_azimuth h s inc i 0)
                         (Max (vec_z ` set (world_bbox_corners obj)))"
proof -
  define S where "S = (if simetric s then s else s\<lparr>random_calls := Suc (random_calls s)\<rparr>)"
  define az where "az = sun_azimuth h s inc i 0"
  define n where "n = next_oid s"
  define l0 where "l0 = (new_object h n (''Shadow_Sun_'' @ string_of_nat (i + 1)) LIGHT (0, 0, 0) [])
      \<lparr>sun_energy := strength s, sun_angle := radians (angle s)\<rparr>"
  define light where "light = l0\<lparr>location := sun_position obj d od az
      (Max (vec_z ` set (world_bbox_corners obj)))\<rparr>"
  define s3 where "s3 = S\<lparr>objects := objects s @ [light], next_oid := Suc n\<rparr>"
  have S: "objects S = objects s" "next_oid S = next_oid s" "strength S = strength s"
    "angle S = angle s" "same_props s S"
    by (simp_all add: S_def same_props_def)
  have ru: "(if simetric s then (0, s)
             else random_uniform h (- inc / 4) (inc / 4) s) = (az - real i * inc, S)"
    by (simp add: random_uniform_def az_def sun_azimuth_def S_def)
  have old: "list_all (\<lambda>ob. oid ob < n) (objects s)"
    using assms by (simp add: wf_scene_def n_def)
  have l0: "oid l0 = n" "otype l0 = LIGHT"
    by (simp_all add: l0_def new_object_def)
  have ns: "new_sun h (''Shadow_Sun_'' @ string_of_nat (i + 1)) (strength S) (radians (angle S)) S =
      (n, S\<lparr>objects := objects s @ [l0], next_oid := Suc n\<rparr>)"
    by (simp add: new_sun_def Let_def S l0_def n_def)
  have up: "update_object n (\<lambda>x. x\<lparr>location := sun_position obj d od az
        (Max (vec_z ` set (world_bbox_corners obj)))\<rparr>)
        (S\<lparr>objects := objects s @ [l0], next_oid := Suc n\<rparr>) = s3"
    by (subst update_object_snoc[OF old l0(1)]) (simp_all add: s3_def light_def)
  have step: "suns_loop h obj d od inc (i # is) L s =
      suns_loop h obj d od inc is (L @ [n]) s3"
    unfolding suns_loop.simps ru Let_def prod.case bbox_min_max_z_eq sum.case ns
    by (simp add: up)
  have li: "oid light = n" "otype light = LIGHT"
    "location light = sun_position obj d od az (Max (vec_z ` set (world_bbox_corners obj)))"
    by (simp_all add: light_def l0)
  have g: "grown s [n] s3"
    unfolding s3_def n_def
    by (rule grown_snoc) (simp_all add: li n_def[symmetric] S)
  have rc: "random_calls s3 = random_calls s + (if simetric s then 0 else 1)"
    by (simp add: s3_def S_def)
  have lk: "lookup_object s3 n = Some light"
    unfolding lookup_object_def s3_def using lookup_object_snoc[OF old li(1)] by simp
  have "suns_loop h obj d od inc (i # is) L s = suns_loop h obj d od inc is (L @ [next_oid s]) s3 \<and>
      grown s [next_oid s] s3 \<and>
      random_calls s3 = random_calls s + (if simetric s then 0 else 1) \<and>
      lookup_object s3 (next_oid s) = Some light \<and> otype light = LIGHT \<and>
      location light = sun_position obj d od (sun_azimuth h s inc i 0)
                         (Max (vec_z ` set (world_bbox_corners obj)))"
    using step g rc lk li(2,3) unfolding n_def az_def by (intro conjI)
  then show ?thesis
    by (intro exI[of _ s3] exI[of _ light])
qed


lemma sun_azimuth_shift:
  assumes "simetric s3 = simetric s" "random_calls s3 = random_calls s + (if simetric s then 0 else 1)"
  shows "sun_azimuth h s3 inc i k = sun_azimuth h s inc i (Suc k)"
  using assms by (simp add: sun_azimuth_def)

lemma suns_loop_result:
  assumes "wf_scene s"
  shows "\<exists>ids s'.
      suns_loop h obj d od inc [j..<j + m] L s = (Inr (L @ ids), s') \<and>
      grown s ids s' \<and> length ids = m \<and>
      (\<forall>k<m. \<exists>light. lookup_object s' (ids ! k) = Some light \<and> otype light = LIGHT \<and>
         location light = sun_position obj d od (sun_azimuth h s inc (j + k) k)
                            (Max (vec_z ` set (world_bbox_corners obj))))"
  using assms
proof (induction m arbitrary: j L s)
  case 0
  have "suns_loop h obj d od inc [j..<j + 0] L s = (Inr (L @ []), s) \<and>
      grown s [] s \<and> length ([] :: nat list) = 0 \<and>
      (\<forall>k<0::nat. \<exists>light. lookup_object s (([] :: nat list) ! k) = Some light \<and> otype light = LIGHT \<and>
         location light = sun_position obj d od (sun_azimuth h s inc (j + k) k)
                            (Max (vec_z ` set (world_bbox_corners obj))))"
    by (simp add: grown_refl)
  then show ?case by (intro exI[of _ "[]"] exI[of _ s])
next
  case (Suc m)
  let ?Z = "Max (vec_z ` set (world_bbox_corners obj))"
  have up: "[j..<j + Suc m] = j # [Suc j..<Suc j + m]"
  proof -
    have "[j..<j + Suc m] = j # [Suc j..<j + Suc m]"
      by (rule upt_conv_Cons) simp
    then show ?thesis by simp
  qed
  from suns_step[OF Suc.prems, of h obj d od inc j "[Suc j..<Suc j + m]" L]
  obtain s3 where "\<exists>light.
      suns_loop h obj d od inc (j # [Suc j..<Suc j + m]) L s =
        suns_loop h obj d od inc [Suc j..<Suc j + m] (L @ [next_oid s]) s3 \<and>
      grown s [next_oid s] s3 \<and>
      random_calls s3 = random_calls s + (if simetric s then 0 else 1) \<and>
      lookup_object s3 (next_oid s) = Some light \<and> otype light = LIGHT \<and>
      location light = sun_position obj d od (sun_azimuth h s inc j 0) ?Z" ..
  then obtain light where st:
     "suns_loop h obj d od inc (j # [Suc j..<Suc j + m]) L s =
        suns_loop h obj d od inc [Suc j..<Suc j + m] (L @ [next_oid s]) s3 \<and>
      grown s [next_oid s] s3 \<and>
      random_calls s3 = random_calls s + (if simetric s then 0 else 1) \<and>
      lookup_object s3 (next_oid s) = Some light \<and> otype light = LIGHT \<and>
      location light = sun_position obj d od (sun_azimuth h s inc j 0) ?Z" ..
  note step = conjunct1[OF st] and g3 = conjunct1[OF conjunct2[OF st]]
    and rc = conjunct1[OF conjunct2[OF conjunct2[OF st]]]
    and lk = conjunct1[OF conjunct2[OF conjunct2[OF conjunct2[OF st]]]]
    and lt = conjunct1[OF conjunct2[OF conjunct2[OF conjunct2[OF conjunct2[OF st]]]]]
    and ll = conjunct2[OF conjunct2[OF conjunct2[OF conjunct2[OF conjunct2[OF st]]]]]
  have wf3: "wf_scene s3" using wf_grown[OF Suc.prems g3] .
  have sym: "simetric s3 = simetric s"
    using g3 same_props_fields(4) unfolding grown_def by blast
  from Suc.IH[OF wf3, of "Suc j" "L @ [next_oid s]"]
  obtain ids where "\<exists>s'.
      suns_loop h obj d od inc [Suc j..<Suc j + m] (L @ [next_oid s]) s3 =
        (Inr ((L @ [next_oid s]) @ ids), s') \<and>
      grown s3 ids s' \<and> length ids = m \<and>
      (\<forall>k<m. \<exists>light. lookup_object s' (ids ! k) = Some light \<and> otype light = LIGHT \<and>
         location light = sun_position obj d od (sun_azimuth h s3 inc (Suc j + k) k) ?Z)" ..
  then obtain s' where ih:
     "suns_loop h obj d od inc [Suc j..<Suc j + m] (L @ [next_oid s]) s3 =
        (Inr ((L @ [next_oid s]) @ ids), s') \<and>
      grown s3 ids s' \<and> length ids = m \<and>
      (\<forall>k<m. \<exists>light. lookup_object s' (ids ! k) = Some light \<and> otype light = LIGHT \<and>
         location light = sun_position obj d od (sun_azimuth h s3 inc (Suc j + k) k) ?Z)" ..
  note run = conjunct1[OF ih] and g' = conjunct1[OF conjunct2[OF ih]]
    and len = conjunct1[OF conjunct2[OF conjunct2[OF ih]]]
    and rest = conjunct2[OF conjunct2[OF conjunct2[OF ih]]]
  from lookup_grown[OF g' lk] obtain light' where l': "lookup_object s' (next_oid s) = Some light' \<and>
      ident light' = ident light" ..
  have first: "lookup_object s' (next_oid s) = Some light' \<and> otype light' = LIGHT \<and>
      location light' = sun_position obj d od (sun_azimuth h s inc j 0) ?Z"
    using l' lt ll by (simp add: ident_def)
  have all: "\<exists>light. lookup_object s' ((next_oid s # ids) ! k) = Some light \<and> otype light = LIGHT \<and>
         location light = sun_position obj d od (sun_azimuth h s inc (j + k) k) ?Z"
    if "k < Suc m" for k
  proof (cases k)
    case 0
    show ?thesis unfolding 0 using first by (intro exI[of _ light']) simp
  next
    case (Suc k')
    then have "k' < m" using that by simp
    with rest have "\<exists>light. lookup_object s' (ids ! k') = Some light \<and> otype light = LIGHT \<and>
         location light = sun_position obj d od (sun_azimuth h s3 inc (Suc j + k') k') ?Z"
      by simp
    then show ?thesis
      unfolding Suc sun_azimuth_shift[OF sym rc] by simp
  qed
  have "suns_loop h obj d od inc [j..<j + Suc m] L s = (Inr (L @ next_oid s # ids), s') \<and>
      grown s (next_oid s # ids) s' \<and> length (next_oid s # ids) = Suc m \<and>
      (\<forall>k<Suc m. \<exists>light. lookup_object s' ((next_oid s # ids) ! k) = Some light \<and>
         otype light = LIGHT \<and>
         location light = sun_position obj d od (sun_azimuth h s inc (j + k) k) ?Z)"
  proof (intro conjI allI impI)
    show "suns_loop h obj d od inc [j..<j + Suc m] L s = (Inr (L @ next_oid s # ids), s')"
      unfolding up step run by simp
    show "grown s (next_oid s # ids) s'"
      using grown_trans[OF g3 g'] by simp
    show "length (next_oid s # ids) = Suc m" using len by simp
    show "\<exists>light. lookup_object s' ((next_oid s # ids) ! k) = Some light \<and>
         otype light = LIGHT \<and>
         location light = sun_position obj d od (sun_azimuth h s inc (j + k) k) ?Z"
      if "k < Suc m" for k using all[OF that] .
  qed
  then show ?case
    by (intro exI[of _ "next_oid s # ids"] exI[of _ s'])
qed

lemma jitter_bound:
  fixes inc u :: real
  assumes "0 \<le> inc" "0 \<le> u" "u < 1"
  shows "\<bar>- inc / 4 + (inc / 4 - - inc / 4) * u\<bar> \<le> inc / 4"
proof -
  have e: "- inc / 4 + (inc / 4 - - inc / 4) * u = inc / 4 * (2 * u - 1)"
    by (simp add: algebra_simps)
  have "\<bar>2 * u - 1\<bar> \<le> 1" using assms by (simp add: abs_le_iff)
  then have "\<bar>inc / 4 * (2 * u - 1)\<bar> \<le> inc / 4 * 1"
    unfolding abs_mult using assms(1) by (intro mult_mono) simp_all
  then show ?thesis unfolding e by simp
qed

text \<open>
  Claim C5.  In a well-formed scene with a light count \<open>N\<close> in \<open>[1, 16]\<close> and a random source
  that draws from \<open>[0, 1)\<close>, \<^verbatim>\<open>create_x_suns_around\<close> returns \<open>N\<close> lights.  Light \<open>i\<close> has the
  azimuth \<open>i * 360 / N + jitter\<close> degrees, where the jitter is 0 when the symmetric toggle is
  set and is at most \<open>360 / (4 N)\<close> in absolute value otherwise.  The light lies at the
  object's X and Y plus \<open>(max(dimX, dimY) + ringDistance) * (cos, sin)\<close> of the azimuth, and
  at the maximum Z of the world-space corners of the object's bounding box plus 5.
\<close>

theorem light_ring:
  assumes "wf_scene s" "1 \<le> numLights s" "numLights s \<le> 16"
    and "\<forall>k. 0 \<le> random h k \<and> random h k < 1"
  shows "\<exists>lights s'.
      create_x_suns_around h obj ringDistance s = (Inr lights, s') \<and>
      length lights = nat (numLights s) \<and>
      (\<forall>i < nat (numLights s). \<exists>jitter light.
         (simetric s \<longrightarrow> jitter = 0) \<and>
         \<bar>jitter\<bar> \<le> 360 / (4 * real_of_int (numLights s)) \<and>
         lookup_object s' (lights ! i) = Some light \<and> otype light = LIGHT \<and>
         location light =
           (vec_x (location obj) +
              (max (vec_x (dimensions obj)) (vec_y (dimensions obj)) + ringDistance) *
              cos (radians (real i * (360 / real_of_int (numLights s)) + jitter)),
            vec_y (location obj) +
              (max (vec_x (dimensions obj)) (vec_y (dimensions obj)) + ringDistance) *
              sin (radians (real i * (360 / real_of_int (numLights s)) + jitter)),
            Max (vec_z ` set (world_bbox_corners obj)) + 5))"
proof -
  define N where "N = nat (numLights s)"
  define inc where "inc = 360 / real_of_int (numLights s)"
  define od where "od = max (vec_x (dimensions obj)) (vec_y (dimensions obj))"
  let ?Z = "Max (vec_z ` set (world_bbox_corners obj))"
  have inc0: "0 \<le> inc" using assms(2) by (simp add: inc_def)
  have q: "inc / 4 = 360 / (4 * real_of_int (numLights s))" by (simp add: inc_def)
  have od': "(if vec_x (dimensions obj) > vec_y (dimensions obj)
              then vec_x (dimensions obj) else vec_y (dimensions obj)) = od"
    by (simp add: od_def max_def)
  have cr: "create_x_suns_around h obj ringDistance s =
      suns_loop h obj ringDistance od inc [0..<0 + N] [] s"
    unfolding create_x_suns_around_def Let_def od' using assms(2)
    by (simp add: inc_def N_def)
  from suns_loop_result[OF assms(1), of h obj ringDistance od inc 0 N "[]"]
  obtain ids where "\<exists>s'.
      suns_loop h obj ringDistance od inc [0..<0 + N] [] s = (Inr ([] @ ids), s') \<and>
      grown s ids s' \<and> length ids = N \<and>
      (\<forall>k<N. \<exists>light. lookup_object s' (ids ! k) = Some light \<and> otype light = LIGHT \<and>
         location light = sun_position obj ringDistance od (sun_azimuth h s inc (0 + k) k) ?Z)" ..
  then obtain s' where r:
     "suns_loop h obj ringDistance od inc [0..<0 + N] [] s = (Inr ([] @ ids), s') \<and>
      grown s ids s' \<and> length ids = N \<and>
      (\<forall>k<N. \<exists>light. lookup_object s' (ids ! k) = Some light \<and> otype light = LIGHT \<and>
         location light = sun_position obj ringDistance od (sun_azimuth h s inc (0 + k) k) ?Z)" ..
  note run = conjunct1[OF r] and len = conjunct1[OF conjunct2[OF conjunct2[OF r]]]
    and each = conjunct2[OF conjunct2[OF conjunct2[OF r]]]
  have per: "\<exists>jitter light.
         (simetric s \<longrightarrow> jitter = 0) \<and> \<bar>jitter\<bar> \<le> inc / 4 \<and>
         lookup_object s' (ids ! i) = Some light \<and> otype light = LIGHT \<and>
         location light =
           (vec_x (location obj) + (od + ringDistance) * cos (radians (real i * inc + jitter)),
            vec_y (location obj) + (od + ringDistance) * sin (radians (real i * inc + jitter)),
            ?Z + 5)" if "i < N" for i
  proof -
    define jit where "jit = (if simetric s then 0
        else - inc / 4 + (inc / 4 - - inc / 4) * random h (random_calls s + i))"
    have az: "sun_azimuth h s inc (0 + i) i = real i * inc + jit"
      by (simp add: sun_azimuth_def jit_def)
    have sym: "simetric s \<longrightarrow> jit = 0"
      by (simp add: jit_def)
    from each that obtain light where l: "lookup_object s' (ids ! i) = Some light \<and>
        otype light = LIGHT \<and>
        location light = sun_position obj ringDistance od (sun_azimuth h s inc (0 + i) i) ?Z"
      by blast
    have b: "\<bar>jit\<bar> \<le> inc / 4"
      using jitter_bound[OF inc0, of "random h (random_calls s + i)"] assms(4) inc0
      by (simp add: jit_def)
    have "(simetric s \<longrightarrow> jit = 0) \<and> \<bar>jit\<bar> \<le> inc / 4 \<and>
         lookup_object s' (ids ! i) = Some light \<and> otype light = LIGHT \<and>
         location light =
           (vec_x (location obj) + (od + ringDistance) * cos (radians (real i * inc + jit)),
            vec_y (location obj) + (od + ringDistance) * sin (radians (real i * inc + jit)),
            ?Z + 5)"
      using l b sym unfolding az sun_position_def Let_def by (intro conjI) simp_all
    then show ?thesis by (intro exI[of _ jit] exI[of _ light])
  qed
  have "create_x_suns_around h obj ringDistance s = (Inr ids, s') \<and>
      length ids = N \<and>
      (\<forall>i < N. \<exists>jitter light.
         (simetric s \<longrightarrow> jitter = 0) \<and> \<bar>jitter\<bar> \<le> inc / 4 \<and>
         lookup_object s' (ids ! i) = Some light \<and> otype light = LIGHT \<and>
         location light =
           (vec_x (location obj) + (od + ringDistance) * cos (radians (real i * inc + jitter)),
            vec_y (location obj) + (od + ringDistance) * sin (radians (real i * inc + jitter)),
            ?Z + 5))"
    using cr run len per by simp
  note fin = this[unfolded q]
  show ?thesis
    using fin[unfolded N_def od_def inc_def]
    by (intro exI[of _ ids] exI[of _ s'])
qed

text \<open>
  Four symmetric lights around the example cube: the second one has azimuth 90 degrees and
  lies at \<open>(0, 3, 6)\<close>.
\<close>

theorem light_ring_witness:
  "wf_scene example_scene \<and> 1 \<le> numLights example_scene \<and> numLights example_scene \<le> 16 \<and>
   0 \<le> random example_host 0 \<and> random example_host 0 < 1 \<and>
   (\<exists>lights s' light.
      create_x_suns_around example_host example_cube 1 example_scene = (Inr lights, s') \<and>
      length lights = 4 \<and> lookup_object s' (lights ! 1) = Some light \<and>
      location light = (0, 3, 6))"
proof -
  have nl: "numLights example_scene = 4" "simetric example_scene"
    by (simp_all add: example_scene_def)
  have rnd: "\<forall>k. 0 \<le> random example_host k \<and> random example_host k < 1"
    by (simp add: example_host_def)
  have mx: "Max (vec_z ` set (world_bbox_corners example_cube)) = 1"
    by (simp add: world_bbox_corners_def example_cube_def identity_matrix_def)
  have cube: "location example_cube = (0, 0, 0)" "dimensions example_cube = (2, 2, 2)"
    by (simp_all add: example_cube_def)
  have rad: "radians (real 1 * (360 / real_of_int 4) + 0) = pi / 2"
    by (simp add: radians_def)
  from light_ring[OF wf_example_scene, of example_host example_cube 1] nl rnd
  obtain lights where "\<exists>s'.
      create_x_suns_around example_host example_cube 1 example_scene = (Inr lights, s') \<and>
      length lights = nat 4 \<and>
      (\<forall>i < nat 4. \<exists>jitter light.
         (simetric example_scene \<longrightarrow> jitter = 0) \<and>
         \<bar>jitter\<bar> \<le> 360 / (4 * real_of_int 4) \<and>
         lookup_object s' (lights ! i) = Some light \<and> otype light = LIGHT \<and>
         location light =
           (vec_x (location example_cube) +
              (max (vec_x (dimensions example_cube)) (vec_y (dimensions example_cube)) + 1) *
              cos (radians (real i * (360 / real_of_int 4) + jitter)),
            vec_y (location example_cube) +
              (max (vec_x (dimensions example_cube)) (vec_y (dimensions example_cube)) + 1) *
              sin (radians (real i * (360 / real_of_int 4) + jitter)),
            Max (vec_z ` set (world_bbox_corners example_cube)) + 5))"
    by auto
  then obtain s' where r:
     "create_x_suns_around example_host example_cube 1 example_scene = (Inr lights, s') \<and>
      length lights = nat 4 \<and>
      (\<forall>i < nat 4. \<exists>jitter light.
         (simetric example_scene \<longrightarrow> jitter = 0) \<and>
         \<bar>jitter\<bar> \<le> 360 / (4 * real_of_int 4) \<and>
         lookup_object s' (lights ! i) = Some light \<and> otype light = LIGHT \<and>
         location light =
           (vec_x (location example_cube) +
              (max (vec_x (dimensions example_cube)) (vec_y (dimensions example_cube)) + 1) *
              cos (radians (real i * (360 / real_of_int 4) + jitter)),
            vec_y (location example_cube) +
              (max (vec_x (dimensions example_cube)) (vec_y (dimensions example_cube)) + 1) *
              sin (radians (real i * (360 / real_of_int 4) + jitter)),
            Max (vec_z ` set (world_bbox_corners example_cube)) + 5))" ..
  note run = conjunct1[OF r] and len = conjunct1[OF conjunct2[OF r]]
    and each = conjunct2[OF conjunct2[OF r]]
  have "(1::nat) < nat 4" by simp
  with each obtain jitter light where l: "(simetric example_scene \<longrightarrow> jitter = 0) \<and>
         \<bar>jitter\<bar> \<le> 360 / (4 * real_of_int 4) \<and>
         lookup_object s' (lights ! 1) = Some light \<and> otype light = LIGHT \<and>
         location light =
           (vec_x (location example_cube) +
              (max (vec_x (dimensions example_cube)) (vec_y (dimensions example_cube)) + 1) *
              cos (radians (real 1 * (360 / real_of_int 4) + jitter)),
            vec_y (location example_cube) +
              (max (vec_x (dimensions example_cube)) (vec_y (dimensions example_cube)) + 1) *
              sin (radians (real 1 * (360 / real_of_int 4) + jitter)),
            Max (vec_z ` set (world_bbox_corners example_cube)) + 5)"
    by blast
  have j0: "jitter = 0" using l nl(2) by simp
  have loc: "location light = (0, 3, 6)"
    using l unfolding j0 rad mx cube by simp
  have "create_x_suns_around example_host example_cube 1 example_scene = (Inr lights, s') \<and>
      length lights = 4 \<and> lookup_object s' (lights ! 1) = Some light \<and>
      location light = (0, 3, 6)"
    using run len l loc by simp
  then have "\<exists>lights s' light.
      create_x_suns_around example_host example_cube 1 example_scene = (Inr lights, s') \<and>
      length lights = 4 \<and> lookup_object s' (lights ! 1) = Some light \<and>
      location light = (0, 3, 6)"
    by (intro exI[of _ lights] exI[of _ s'] exI[of _ light])
  then show ?thesis
    using wf_example_scene nl(1) rnd by simp
qed

section \<open>Export of one object\<close>

lemma create_x_suns_around_result:
  assumes "wf_scene s" "numLights s \<noteq> 0"
  shows "\<exists>ids s1. create_x_suns_around h obj d s = (Inr ids, s1) \<and> grown s ids s1 \<and>
           length ids = nat (numLights s)"
proof -
  define N where "N = nat (numLights s)"
  define inc where "inc = 360 / real_of_int (numLights s)"
  define od where "od = (if vec_x (dimensions obj) > vec_y (dimensions obj)
              then vec_x (dimensions obj) else vec_y (dimensions obj))"
  have cr: "create_x_suns_around h obj d s = suns_loop h obj d od inc [0..<0 + N] [] s"
    unfolding create_x_suns_around_def Let_def using assms(2)
    by (simp add: inc_def N_def od_def)
  from suns_loop_result[OF assms(1), of h obj d od inc 0 N "[]"]
  obtain ids where "\<exists>s'.
      suns_loop h obj d od inc [0..<0 + N] [] s = (Inr ([] @ ids), s') \<and>
      grown s ids s' \<and> length ids = N \<and>
      (\<forall>k<N. \<exists>light. lookup_object s' (ids ! k) = Some light \<and> otype light = LIGHT \<and>
         location light = sun_position obj d od (sun_azimuth h s inc (0 + k) k)
           (Max (vec_z ` set (world_bbox_corners obj))))" ..
  then obtain s' where r:
     "suns_loop h obj d od inc [0..<0 + N] [] s = (Inr ([] @ ids), s') \<and>
      grown s ids s' \<and> length ids = N \<and>
      (\<forall>k<N. \<exists>light. lookup_object s' (ids ! k) = Some light \<and> otype light = LIGHT \<and>
         location light = sun_position obj d od (sun_azimuth h s inc (0 + k) k)
           (Max (vec_z ` set (world_bbox_corners obj))))" ..
  note run = conjunct1[OF r] and g = conjunct1[OF conjunct2[OF r]]
    and len = conjunct1[OF conjunct2[OF conjunct2[OF r]]]
  have "create_x_suns_around h obj d s = (Inr ids, s') \<and> grown s ids s' \<and>
           length ids = nat (numLights s)"
    using cr run g len by (simp add: N_def)
  then show ?thesis by (intro exI[of _ ids] exI[of _ s'])
qed

lemma objects_fold_remove:
  "objects (fold objects_remove rm s) = filter (\<lambda>ob. oid ob \<notin> set rm) (objects s)"
proof (induction rm arbitrary: s)
  case Nil
  then show ?case by simp
next
  case (Cons a rm)
  have "objects (fold objects_remove (a # rm) s) =
        filter (\<lambda>ob. oid ob \<notin> set rm) (objects (objects_remove a s))"
    using Cons.IH[of "objects_remove a s"] by simp
  also have "objects (objects_remove a s) = filter (\<lambda>ob. oid ob \<noteq> a) (objects s)"
    by (simp add: objects_remove_def)
  finally show ?case
    by (simp add: conj_commute)
qed

lemma same_props_objects_remove: "same_props s (objects_remove i s)"
  by (simp add: same_props_def objects_remove_def)

lemma next_oid_objects_remove [simp]: "next_oid (objects_remove i s) = next_oid s"
  by (simp add: objects_remove_def)

lemma same_props_fold_remove: "same_props s (fold objects_remove rm s)"
proof (induction rm arbitrary: s)
  case Nil
  then show ?case by (simp add: same_props_refl)
next
  case (Cons a rm)
  show ?case
    using same_props_trans[OF same_props_objects_remove Cons.IH[of "objects_remove a s"]]
    by simp
qed

lemma next_oid_fold_remove [simp]: "next_oid (fold objects_remove rm s) = next_oid s"
  by (induction rm arbitrary: s) simp_all

lemma cleanup_grown:
  assumes "wf_scene s" "grown s ids s'" "set rm = set ids"
  shows "grown s [] (fold objects_remove rm s')"
proof -
  from assms(2) obtain new where n: "map ident (objects s') = map ident (objects s) @ new \<and>
      map fst new = ids"
    unfolding grown_def by blast
  have b: "list_all (\<lambda>i. next_oid s \<le> i \<and> i < next_oid s') ids" "next_oid s \<le> next_oid s'"
    "same_props s s'"
    using assms(2) unfolding grown_def by blast+
  have old: "\<forall>ob \<in> set (objects s). oid ob \<notin> set ids"
    using assms(1) b(1) by (fastforce simp: wf_scene_def list_all_iff)
  have f1: "filter (\<lambda>t. fst t \<notin> set ids) (map ident (objects s)) = map ident (objects s)"
    using old by (simp add: filter_id_conv ident_def)
  have ids: "ids = map fst new" using n by simp
  have f2: "filter (\<lambda>t. fst t \<notin> set ids) new = []"
    unfolding ids filter_empty_conv by force
  have "map ident (filter (\<lambda>ob. oid ob \<notin> set ids) (objects s')) =
        filter (\<lambda>t. fst t \<notin> set ids) (map ident (objects s'))"
    by (simp add: filter_map comp_def ident_def)
  also have "\<dots> = map ident (objects s)"
    using n f1 f2 by simp
  finally have m: "map ident (objects (fold objects_remove rm s')) = map ident (objects s)"
    by (simp add: objects_fold_remove assms(3))
  have sp: "same_props s (fold objects_remove rm s')"
    using same_props_trans[OF b(3) same_props_fold_remove] .
  show ?thesis
    unfolding grown_def using m sp b(2) by simp
qed

lemma grown_files:
  assumes "grown s ids s'"
  shows "grown (s\<lparr>files := F\<rparr>) ids (s'\<lparr>files := F\<rparr>)"
proof -
  have "same_props s s'" using assms unfolding grown_def by blast
  then have "same_props (s\<lparr>files := F\<rparr>) (s'\<lparr>files := F\<rparr>)"
    by (cases s; cases s') (simp add: same_props_def)
  then show ?thesis
    using assms unfolding grown_def by simp
qed


lemma wf_scene_files: "wf_scene (s\<lparr>files := F\<rparr>) = wf_scene s"
  by (simp add: wf_scene_def)

lemma export_obj_result:
  assumes "wf_scene s" "numLights s \<noteq> 0"
  shows "\<exists>lights p s2 sb.
      length lights = nat (numLights s) \<and> grown s (lights @ [p]) s2 \<and>
      export_obj h obj s =
        (case bake_shadow h sb of
           Inl e \<Rightarrow> (Inl e, s2)
         | Inr f \<Rightarrow>
             (let s5 = select_set (oid obj) True (select_set p True (select_all_deselect s2))
              in case export_gltf h (path_join (pathToFile s) (name obj @ ''.glb'')) s5 of
                   Some e \<Rightarrow> (Inl e, s5)
                 | None \<Rightarrow>
                     (Inr (), fold objects_remove (p # lights)
                        (s5\<lparr>files := List.insert (path_join (pathToFile s) (name obj @ ''.glb''))
                                       (files s)\<rparr>))))"
proof -
  from create_x_suns_around_result[OF assms, of h obj 1]
  obtain lights where "\<exists>s1. create_x_suns_around h obj 1 s = (Inr lights, s1) \<and>
      grown s lights s1 \<and> length lights = nat (numLights s)" ..
  then obtain s1 where c1: "create_x_suns_around h obj 1 s = (Inr lights, s1) \<and>
      grown s lights s1 \<and> length lights = nat (numLights s)" ..
  note suns = conjunct1[OF c1] and g1 = conjunct1[OF conjunct2[OF c1]]
    and len = conjunct2[OF conjunct2[OF c1]]
  have wf1: "wf_scene s1" using wf_grown[OF assms(1) g1] .
  let ?L = "(vec_x (translation (matrix_world obj)), vec_y (translation (matrix_world obj)),
             Min (vec_z ` set (world_bbox_corners obj)))"
  from make_shadow_plane_result[OF wf1, of h obj]
  obtain p where "\<exists>s2 sb plane. make_shadow_plane h obj s1 =
        ((case bake_shadow h sb of Inl e \<Rightarrow> Inl e | Inr f \<Rightarrow> Inr p), s2) \<and>
      grown s1 [p] s2 \<and> lookup_object s2 p = Some plane \<and> otype plane = MESH \<and>
      location plane = ?L" ..
  then obtain s2 where "\<exists>sb plane. make_shadow_plane h obj s1 =
        ((case bake_shadow h sb of Inl e \<Rightarrow> Inl e | Inr f \<Rightarrow> Inr p), s2) \<and>
      grown s1 [p] s2 \<and> lookup_object s2 p = Some plane \<and> otype plane = MESH \<and>
      location plane = ?L" ..
  then obtain sb where "\<exists>plane. make_shadow_plane h obj s1 =
        ((case bake_shadow h sb of Inl e \<Rightarrow> Inl e | Inr f \<Rightarrow> Inr p), s2) \<and>
      grown s1 [p] s2 \<and> lookup_object s2 p = Some plane \<and> otype plane = MESH \<and>
      location plane = ?L" ..
  then obtain plane where mp: "make_shadow_plane h obj s1 =
        ((case bake_shadow h sb of Inl e \<Rightarrow> Inl e | Inr f \<Rightarrow> Inr p), s2) \<and>
      grown s1 [p] s2 \<and> lookup_object s2 p = Some plane \<and> otype plane = MESH \<and>
      location plane = ?L" ..
  note m = conjunct1[OF mp] and g2 = conjunct1[OF conjunct2[OF mp]]
  have g: "grown s (lights @ [p]) s2" using grown_trans[OF g1 g2] .
  define s5 where "s5 = select_set (oid obj) True (select_set p True (select_all_deselect s2))"
  have g25: "grown s2 [] s5"
    unfolding s5_def
    by (rule grown_nil_trans[OF grown_select_all_deselect
          grown_nil_trans[OF grown_select_set grown_select_set]])
  have sp: "same_props s s5"
    using grown_trans_nil[OF g g25] unfolding grown_def by blast
  have pf: "pathToFile s5 = pathToFile s" "files s5 = files s"
    using same_props_fields[OF sp] by simp_all
  have ex: "export_obj h obj s =
        (case bake_shadow h sb of
           Inl e \<Rightarrow> (Inl e, s2)
         | Inr f \<Rightarrow>
             (let s5 = select_set (oid obj) True (select_set p True (select_all_deselect s2))
              in case export_gltf h (path_join (pathToFile s) (name obj @ ''.glb'')) s5 of
                   Some e \<Rightarrow> (Inl e, s5)
                 | None \<Rightarrow>
                     (Inr (), fold objects_remove (p # lights)
                        (s5\<lparr>files := List.insert (path_join (pathToFile s) (name obj @ ''.glb''))
                                       (files s)\<rparr>))))"
  proof (cases "bake_shadow h sb")
    case (Inl e)
    show ?thesis
      unfolding export_obj_def suns prod.case sum.case m Inl by simp
  next
    case (Inr f)
    show ?thesis
      unfolding export_obj_def suns prod.case sum.case m Inr Let_def s5_def[symmetric]
        export_scene_gltf_def pf
      by (cases "export_gltf h (path_join (pathToFile s) (name obj @ ''.glb'')) s5") simp_all
  qed
  have "length lights = nat (numLights s) \<and> grown s (lights @ [p]) s2 \<and>
      export_obj h obj s =
        (case bake_shadow h sb of
           Inl e \<Rightarrow> (Inl e, s2)
         | Inr f \<Rightarrow>
             (let s5 = select_set (oid obj) True (select_set p True (select_all_deselect s2))
              in case export_gltf h (path_join (pathToFile s) (name obj @ ''.glb'')) s5 of
                   Some e \<Rightarrow> (Inl e, s5)
                 | None \<Rightarrow>
                     (Inr (), fold objects_remove (p # lights)
                        (s5\<lparr>files := List.insert (path_join (pathToFile s) (name obj @ ''.glb''))
                                       (files s)\<rparr>))))"
    using len g ex by (intro conjI)
  then show ?thesis
    by (intro exI[of _ lights] exI[of _ p] exI[of _ s2] exI[of _ sb])
qed

lemma export_obj_outcomes:
  assumes "wf_scene s" "numLights s \<noteq> 0"
  shows "(\<forall>e. (\<forall>sc. bake_shadow h sc = Inl e) \<longrightarrow>
            (\<exists>ids s'. export_obj h obj s = (Inl e, s') \<and> grown s ids s' \<and>
               length ids = Suc (nat (numLights s))))"
    and "(\<forall>e. (\<forall>sc. \<exists>f. bake_shadow h sc = Inr f) \<and>
             (\<forall>sc. export_gltf h (path_join (pathToFile s) (name obj @ ''.glb'')) sc = Some e) \<longrightarrow>
            (\<exists>ids s'. export_obj h obj s = (Inl e, s') \<and> grown s ids s' \<and>
               length ids = Suc (nat (numLights s))))"
    and "(\<forall>sc. \<exists>f. bake_shadow h sc = Inr f) \<and>
         (\<forall>sc. export_gltf h (path_join (pathToFile s) (name obj @ ''.glb'')) sc = None) \<longrightarrow>
            (\<exists>s'. export_obj h obj s = (Inr (), s') \<and>
               grown (s\<lparr>files := List.insert (path_join (pathToFile s) (name obj @ ''.glb''))
                                     (files s)\<rparr>) [] s')"
proof -
  let ?path = "path_join (pathToFile s) (name obj @ ''.glb'')"
  from export_obj_result[OF assms, of h obj]
  obtain lights where "\<exists>p s2 sb.
      length lights = nat (numLights s) \<and> grown s (lights @ [p]) s2 \<and>
      export_obj h obj s =
        (case bake_shadow h sb of
           Inl e \<Rightarrow> (Inl e, s2)
         | Inr f \<Rightarrow>
             (let s5 = select_set (oid obj) True (select_set p True (select_all_deselect s2))
              in case export_gltf h ?path s5 of
                   Some e \<Rightarrow> (Inl e, s5)
                 | None \<Rightarrow>
                     (Inr (), fold objects_remove (p # lights)
                        (s5\<lparr>files := List.insert ?path (files s)\<rparr>))))" ..
  then obtain p where "\<exists>s2 sb.
      length lights = nat (numLights s) \<and> grown s (lights @ [p]) s2 \<and>
      export_obj h obj s =
        (case bake_shadow h sb of
           Inl e \<Rightarrow> (Inl e, s2)
         | Inr f \<Rightarrow>
             (let s5 = select_set (oid obj) True (select_set p True (select_all_deselect s2))
              in case export_gltf h ?path s5 of
                   Some e \<Rightarrow> (Inl e, s5)
                 | None \<Rightarrow>
                     (Inr (), fold objects_remove (p # lights)
                        (s5\<lparr>files := List.insert ?path (files s)\<rparr>))))" ..
  then obtain s2 where "\<exists>sb.
      length lights = nat (numLights s) \<and> grown s (lights @ [p]) s2 \<and>
      export_obj h obj s =
        (case bake_shadow h sb of
           Inl e \<Rightarrow> (Inl e, s2)
         | Inr f \<Rightarrow>
             (let s5 = select_set (oid obj) True (select_set p True (select_all_deselect s2))
              in case export_gltf h ?path s5 of
                   Some e \<Rightarrow> (Inl e, s5)
                 | None \<Rightarrow>
                     (Inr (), fold objects_remove (p # lights)
                        (s5\<lparr>files := List.insert ?path (files s)\<rparr>))))" ..
  then obtain sb where r:
     "length lights = nat (numLights s) \<and> grown s (lights @ [p]) s2 \<and>
      export_obj h obj s =
        (case bake_shadow h sb of
           Inl e \<Rightarrow> (Inl e, s2)
         | Inr f \<Rightarrow>
             (let s5 = select_set (oid obj) True (select_set p True (select_all_deselect s2))
              in case export_gltf h ?path s5 of
                   Some e \<Rightarrow> (Inl e, s5)
                 | None \<Rightarrow>
                     (Inr (), fold objects_remove (p # lights)
                        (s5\<lparr>files := List.insert ?path (files s)\<rparr>))))" ..
  note len = conjunct1[OF r] and g = conjunct1[OF conjunct2[OF r]]
    and ex = conjunct2[OF conjunct2[OF r]]
  define s5 where "s5 = select_set (oid obj) True (select_set p True (select_all_deselect s2))"
  have g25: "grown s2 [] s5"
    unfolding s5_def
    by (rule grown_nil_trans[OF grown_select_all_deselect
          grown_nil_trans[OF grown_select_set grown_select_set]])
  have g5: "grown s (lights @ [p]) s5" using grown_trans_nil[OF g g25] .
  have len': "length (lights @ [p]) = Suc (nat (numLights s))" using len by simp
  show "\<forall>e. (\<forall>sc. bake_shadow h sc = Inl e) \<longrightarrow>
            (\<exists>ids s'. export_obj h obj s = (Inl e, s') \<and> grown s ids s' \<and>
               length ids = Suc (nat (numLights s)))"
  proof (intro allI impI)
    fix e assume "\<forall>sc. bake_shadow h sc = Inl e"
    then have "export_obj h obj s = (Inl e, s2)" using ex by simp
    then have "export_obj h obj s = (Inl e, s2) \<and> grown s (lights @ [p]) s2 \<and>
               length (lights @ [p]) = Suc (nat (numLights s))"
      using g len' by (intro conjI)
    then show "\<exists>ids s'. export_obj h obj s = (Inl e, s') \<and> grown s ids s' \<and>
               length ids = Suc (nat (numLights s))"
      by (intro exI[of _ "lights @ [p]"] exI[of _ s2])
  qed
  show "\<forall>e. (\<forall>sc. \<exists>f. bake_shadow h sc = Inr f) \<and>
             (\<forall>sc. export_gltf h ?path sc = Some e) \<longrightarrow>
            (\<exists>ids s'. export_obj h obj s = (Inl e, s') \<and> grown s ids s' \<and>
               length ids = Suc (nat (numLights s)))"
  proof (intro allI impI)
    fix e assume a: "(\<forall>sc. \<exists>f. bake_shadow h sc = Inr f) \<and>
             (\<forall>sc. export_gltf h ?path sc = Some e)"
    then obtain f where "bake_shadow h sb = Inr f" by blast
    moreover have "export_gltf h ?path s5 = Some e" using a by simp
    ultimately have "export_obj h obj s = (Inl e, s5)"
      using ex by (simp add: s5_def Let_def)
    then have "export_obj h obj s = (Inl e, s5) \<and> grown s (lights @ [p]) s5 \<and>
               length (lights @ [p]) = Suc (nat (numLights s))"
      using g5 len' by (intro conjI)
    then show "\<exists>ids s'. export_obj h obj s = (Inl e, s') \<and> grown s ids s' \<and>
               length ids = Suc (nat (numLights s))"
      by (intro exI[of _ "lights @ [p]"] exI[of _ s5])
  qed
  show "(\<forall>sc. \<exists>f. bake_shadow h sc = Inr f) \<and>
         (\<forall>sc. export_gltf h ?path sc = None) \<longrightarrow>
            (\<exists>s'. export_obj h obj s = (Inr (), s') \<and>
               grown (s\<lparr>files := List.insert ?path (files s)\<rparr>) [] s')"
  proof (intro impI)
    assume a: "(\<forall>sc. \<exists>f. bake_shadow h sc = Inr f) \<and>
         (\<forall>sc. export_gltf h ?path sc = None)"
    define F where "F = List.insert ?path (files s)"
    from a obtain f where "bake_shadow h sb = Inr f" by blast
    moreover have "export_gltf h ?path s5 = None" using a by simp
    ultimately have e: "export_obj h obj s =
        (Inr (), fold objects_remove (p # lights) (s5\<lparr>files := F\<rparr>))"
      using ex by (simp add: s5_def Let_def F_def)
    have gf: "grown (s\<lparr>files := F\<rparr>) (lights @ [p]) (s5\<lparr>files := F\<rparr>)"
      using grown_files[OF g5] .
    have wff: "wf_scene (s\<lparr>files := F\<rparr>)" using assms(1) by (simp add: wf_scene_files)
    have "grown (s\<lparr>files := F\<rparr>) [] (fold objects_remove (p # lights) (s5\<lparr>files := F\<rparr>))"
      by (rule cleanup_grown[OF wff gf]) auto
    with e have "export_obj h obj s =
        (Inr (), fold objects_remove (p # lights) (s5\<lparr>files := F\<rparr>)) \<and>
        grown (s\<lparr>files := F\<rparr>) [] (fold objects_remove (p # lights) (s5\<lparr>files := F\<rparr>))"
      by (intro conjI)
    then show "\<exists>s'. export_obj h obj s = (Inr (), s') \<and>
               grown (s\<lparr>files := List.insert ?path (files s)\<rparr>) [] s'"
      unfolding F_def by (rule exI)
  qed
qed

lemma grown_active_object:
  assumes "grown s ids s'"
  shows "grown s ids (s'\<lparr>active_object := a\<rparr>)"
proof -
  have "same_props s s'" using assms unfolding grown_def by blast
  then have "same_props s (s'\<lparr>active_object := a\<rparr>)"
    by (cases s; cases s') (simp add: same_props_def)
  then show ?thesis using assms unfolding grown_def by simp
qed

lemma target_object_mode_set [simp]: "target_object (mode_set_object s) = target_object s"
  by (simp add: target_object_def lookup_object_def mode_set_object_def split: option.splits)

lemma export_obj_glb_execute_outcomes:
  assumes "wf_scene s" "target_object s = Some obj" "otype obj = MESH"
    "isdir h (pathToFile s)" "numLights s \<noteq> 0"
  defines "s0 \<equiv> (if mode s \<noteq> OBJECT then mode_set_object s else s)"
  shows "(\<forall>e. (\<forall>sc. bake_shadow h sc = Inl e) \<longrightarrow>
            (\<exists>ids s'. export_obj_glb_execute h s = (Inl e, s') \<and> grown s0 ids s' \<and>
               length ids = Suc (nat (numLights s))))"
    and "(\<forall>e. (\<forall>sc. \<exists>f. bake_shadow h sc = Inr f) \<and>
             (\<forall>sc. export_gltf h (path_join (pathToFile s) (name obj @ ''.glb'')) sc = Some e) \<longrightarrow>
            (\<exists>ids s'. export_obj_glb_execute h s = (Inl e, s') \<and> grown s0 ids s' \<and>
               length ids = Suc (nat (numLights s))))"
    and "(\<forall>sc. \<exists>f. bake_shadow h sc = Inr f) \<and>
         (\<forall>sc. export_gltf h (path_join (pathToFile s) (name obj @ ''.glb'')) sc = None) \<longrightarrow>
            (\<exists>s'. export_obj_glb_execute h s = (Inr FINISHED, s') \<and>
               grown (s0\<lparr>files := List.insert (path_join (pathToFile s) (name obj @ ''.glb''))
                                     (files s)\<rparr>) [] s')"
proof -
  let ?path = "path_join (pathToFile s) (name obj @ ''.glb'')"
  have s0: "wf_scene s0" "target_object s0 = Some obj" "pathToFile s0 = pathToFile s"
    "numLights s0 = numLights s" "files s0 = files s"
    using assms(1,2)
    by (simp_all add: s0_def) (simp_all add: mode_set_object_def wf_scene_def)
  have nl: "numLights s0 \<noteq> 0" using assms(5) s0(4) by simp
  have ex: "export_obj_glb_execute h s =
      (case export_obj h obj s0 of
         (Inl e, s1) \<Rightarrow> (Inl e, s1)
       | (Inr u, s1) \<Rightarrow> (Inr FINISHED, s1\<lparr>active_object := Some (oid obj)\<rparr>))"
    unfolding export_obj_glb_execute_def Let_def s0_def[symmetric] s0(2) option.case s0(3)
    using assms(3,4) by simp
  note oc = export_obj_outcomes[OF s0(1) nl, of h obj, unfolded s0(3,4,5)]
  show "\<forall>e. (\<forall>sc. bake_shadow h sc = Inl e) \<longrightarrow>
            (\<exists>ids s'. export_obj_glb_execute h s = (Inl e, s') \<and> grown s0 ids s' \<and>
               length ids = Suc (nat (numLights s)))"
  proof (intro allI impI)
    fix e assume "\<forall>sc. bake_shadow h sc = Inl e"
    with oc(1) obtain ids where "\<exists>s'. export_obj h obj s0 = (Inl e, s') \<and> grown s0 ids s' \<and>
               length ids = Suc (nat (numLights s))" by blast
    then obtain s' where r: "export_obj h obj s0 = (Inl e, s') \<and> grown s0 ids s' \<and>
               length ids = Suc (nat (numLights s))" ..
    have "export_obj_glb_execute h s = (Inl e, s') \<and> grown s0 ids s' \<and>
               length ids = Suc (nat (numLights s))"
      using r by (simp add: ex)
    then show "\<exists>ids s'. export_obj_glb_execute h s = (Inl e, s') \<and> grown s0 ids s' \<and>
               length ids = Suc (nat (numLights s))"
      by (intro exI[of _ ids] exI[of _ s'])
  qed
  show "\<forall>e. (\<forall>sc. \<exists>f. bake_shadow h sc = Inr f) \<and>
             (\<forall>sc. export_gltf h ?path sc = Some e) \<longrightarrow>
            (\<exists>ids s'. export_obj_glb_execute h s = (Inl e, s') \<and> grown s0 ids s' \<and>
               length ids = Suc (nat (numLights s)))"
  proof (intro allI impI)
    fix e assume "(\<forall>sc. \<exists>f. bake_shadow h sc = Inr f) \<and>
             (\<forall>sc. export_gltf h ?path sc = Some e)"
    with oc(2) obtain ids where "\<exists>s'. export_obj h obj s0 = (Inl e, s') \<and> grown s0 ids s' \<and>
               length ids = Suc (nat (numLights s))" by blast
    then obtain s' where r: "export_obj h obj s0 = (Inl e, s') \<and> grown s0 ids s' \<and>
               length ids = Suc (nat (numLights s))" ..
    have "export_obj_glb_execute h s = (Inl e, s') \<and> grown s0 ids s' \<and>
               length ids = Suc (nat (numLights s))"
      using r by (simp add: ex)
    then show "\<exists>ids s'. export_obj_glb_execute h s = (Inl e, s') \<and> grown s0 ids s' \<and>
               length ids = Suc (nat (numLights s))"
      by (intro exI[of _ ids] exI[of _ s'])
  qed
  show "(\<forall>sc. \<exists>f. bake_shadow h sc = Inr f) \<and>
         (\<forall>sc. export_gltf h ?path sc = None) \<longrightarrow>
            (\<exists>s'. export_obj_glb_execute h s = (Inr FINISHED, s') \<and>
               grown (s0\<lparr>files := List.insert ?path (files s)\<rparr>) [] s')"
  proof (intro impI)
    assume "(\<forall>sc. \<exists>f. bake_shadow h sc = Inr f) \<and>
         (\<forall>sc. export_gltf h ?path sc = None)"
    with oc(3) obtain s' where r: "export_obj h obj s0 = (Inr (), s') \<and>
               grown (s0\<lparr>files := List.insert ?path (files s)\<rparr>) [] s'" by blast
    have "export_obj_glb_execute h s = (Inr FINISHED, s'\<lparr>active_object := Some (oid obj)\<rparr>) \<and>
        grown (s0\<lparr>files := List.insert ?path (files s)\<rparr>) []
          (s'\<lparr>active_object := Some (oid obj)\<rparr>)"
      using r grown_active_object[OF conjunct2[OF r]] by (simp add: ex)
    then show "\<exists>s'. export_obj_glb_execute h s = (Inr FINISHED, s') \<and>
               grown (s0\<lparr>files := List.insert ?path (files s)\<rparr>) [] s'"
      by (rule exI)
  qed
qed

section \<open>Cleanup after the single-object export\<close>

lemma example_target: "target_object example_scene = Some example_cube"
  by (simp add: target_object_def lookup_object_def example_scene_def example_cube_def)

lemma example_facts:
  "otype example_cube = MESH" "numLights example_scene = 4" "mode example_scene = OBJECT"
  "pathToFile example_scene = ''/out''" "name example_cube = ''Cube''"
  "files example_scene = []" "objects example_scene = [example_cube]"
  "isdir example_host ''/out''" "isdir export_failing_host ''/out''"
  "bake_shadow example_host = (\<lambda>s. Inr (\<lambda>k. 1))"
  "bake_shadow export_failing_host = (\<lambda>s. Inr (\<lambda>k. 1))"
  "export_gltf example_host = (\<lambda>p s. None)"
  "export_gltf export_failing_host = (\<lambda>p s. Some RuntimeError)"
  by (simp_all add: example_scene_def example_cube_def example_host_def export_failing_host_def)

text \<open>
  Claim C3 says that the plane and the lights are removed on every path.  When the exporter
  raises, the operator ends with that exception and the scene, which held one object, holds
  six: the four lights and the plane are still there.
\<close>

theorem export_cleanup_counterexample:
  "fst (export_obj_glb_execute export_failing_host example_scene) = Inl RuntimeError \<and>
   length (objects example_scene) = 1 \<and>
   length (objects (snd (export_obj_glb_execute export_failing_host example_scene))) = 6"
proof -
  have nl: "numLights example_scene \<noteq> 0" by (simp add: example_facts)
  have dir: "isdir export_failing_host (pathToFile example_scene)" by (simp add: example_facts)
  have hyp: "(\<forall>sc. \<exists>f. bake_shadow export_failing_host sc = Inr f) \<and>
      (\<forall>sc. export_gltf export_failing_host
              (path_join (pathToFile example_scene) (name example_cube @ ''.glb'')) sc =
            Some RuntimeError)"
    by (simp add: example_facts)
  from export_obj_glb_execute_outcomes(2)[OF wf_example_scene example_target example_facts(1) dir nl]
    hyp
  obtain ids where "\<exists>s'. export_obj_glb_execute export_failing_host example_scene =
        (Inl RuntimeError, s') \<and>
      grown (if mode example_scene \<noteq> OBJECT then mode_set_object example_scene
             else example_scene) ids s' \<and>
      length ids = Suc (nat (numLights example_scene))"
    by blast
  then obtain s' where r: "export_obj_glb_execute export_failing_host example_scene =
        (Inl RuntimeError, s') \<and>
      grown (if mode example_scene \<noteq> OBJECT then mode_set_object example_scene
             else example_scene) ids s' \<and>
      length ids = Suc (nat (numLights example_scene))" ..
  have g: "grown example_scene ids s'"
    using conjunct1[OF conjunct2[OF r]] by (simp add: example_facts)
  have "length (map oid (objects s')) = length (map oid (objects example_scene) @ ids)"
    using grown_oids[OF g] by simp
  then have "length (objects s') = 6"
    using conjunct2[OF conjunct2[OF r]] by (simp add: example_facts)
  then show ?thesis
    using conjunct1[OF r] by (simp add: example_facts)
qed

text \<open>
  Claim C3, amended.  With a mesh target, an existing folder and at least one light: when
  the bake and the export return normally, the operator finishes, the scene holds the
  objects it held before, and the file is written; when the bake or the export raises, the
  operator ends with that exception, nothing is written, and the lights and the plane made
  so far (one more object than lights) stay in the scene.
\<close>

theorem export_cleanup:
  assumes "wf_scene s" "target_object s = Some obj" "otype obj = MESH"
    "isdir h (pathToFile s)" "1 \<le> numLights s"
  shows "((\<forall>sc. \<exists>f. bake_shadow h sc = Inr f) \<and>
          (\<forall>sc. export_gltf h (path_join (pathToFile s) (name obj @ ''.glb'')) sc = None) \<longrightarrow>
            (\<exists>s'. export_obj_glb_execute h s = (Inr FINISHED, s') \<and>
               map oid (objects s') = map oid (objects s) \<and>
               files s' = List.insert (path_join (pathToFile s) (name obj @ ''.glb'')) (files s))) \<and>
         (\<forall>e. (\<forall>sc. bake_shadow h sc = Inl e) \<or>
              (\<forall>sc. \<exists>f. bake_shadow h sc = Inr f) \<and>
              (\<forall>sc. export_gltf h (path_join (pathToFile s) (name obj @ ''.glb'')) sc = Some e) \<longrightarrow>
            (\<exists>ids s'. export_obj_glb_execute h s = (Inl e, s') \<and>
               map oid (objects s') = map oid (objects s) @ ids \<and>
               length ids = nat (numLights s) + 1 \<and> files s' = files s))"
proof -
  let ?path = "path_join (pathToFile s) (name obj @ ''.glb'')"
  define s0 where "s0 = (if mode s \<noteq> OBJECT then mode_set_object s else s)"
  have nl: "numLights s \<noteq> 0" using assms(5) by simp
  note oc = export_obj_glb_execute_outcomes[OF assms(1-4) nl, folded s0_def]
  have s0: "map oid (objects s0) = map oid (objects s)" "files s0 = files s"
    by (simp_all add: s0_def mode_set_object_def)
  have fail: "\<exists>ids s'. export_obj_glb_execute h s = (Inl e, s') \<and>
               map oid (objects s') = map oid (objects s) @ ids \<and>
               length ids = nat (numLights s) + 1 \<and> files s' = files s"
    if "\<exists>ids s'. export_obj_glb_execute h s = (Inl e, s') \<and> grown s0 ids s' \<and>
               length ids = Suc (nat (numLights s))" for e
  proof -
    from that obtain ids where "\<exists>s'. export_obj_glb_execute h s = (Inl e, s') \<and>
        grown s0 ids s' \<and> length ids = Suc (nat (numLights s))" ..
    then obtain s' where r: "export_obj_glb_execute h s = (Inl e, s') \<and>
        grown s0 ids s' \<and> length ids = Suc (nat (numLights s))" ..
    note g = conjunct1[OF conjunct2[OF r]]
    have sp: "same_props s0 s'" using g unfolding grown_def by blast
    have "export_obj_glb_execute h s = (Inl e, s') \<and>
               map oid (objects s') = map oid (objects s) @ ids \<and>
               length ids = nat (numLights s) + 1 \<and> files s' = files s"
      using r grown_oids[OF g] same_props_fields(12)[OF sp] s0 by simp
    then show ?thesis by (intro exI[of _ ids] exI[of _ s'])
  qed
  show ?thesis
  proof (intro conjI allI impI)
    assume "(\<forall>sc. \<exists>f. bake_shadow h sc = Inr f) \<and> (\<forall>sc. export_gltf h ?path sc = None)"
    with oc(3) obtain s' where r: "export_obj_glb_execute h s = (Inr FINISHED, s') \<and>
               grown (s0\<lparr>files := List.insert ?path (files s)\<rparr>) [] s'" by blast
    note g = conjunct2[OF r]
    have sp: "same_props (s0\<lparr>files := List.insert ?path (files s)\<rparr>) s'"
      using g unfolding grown_def by blast
    have "export_obj_glb_execute h s = (Inr FINISHED, s') \<and>
               map oid (objects s') = map oid (objects s) \<and>
               files s' = List.insert ?path (files s)"
      using r grown_oids[OF g] same_props_fields(12)[OF sp] s0 by simp
    then show "\<exists>s'. export_obj_glb_execute h s = (Inr FINISHED, s') \<and>
               map oid (objects s') = map oid (objects s) \<and>
               files s' = List.insert ?path (files s)"
      by (rule exI)
  next
    fix e
    assume a: "(\<forall>sc. bake_shadow h sc = Inl e) \<or>
              (\<forall>sc. \<exists>f. bake_shadow h sc = Inr f) \<and> (\<forall>sc. export_gltf h ?path sc = Some e)"
    then have "\<exists>ids s'. export_obj_glb_execute h s = (Inl e, s') \<and> grown s0 ids s' \<and>
               length ids = Suc (nat (numLights s))"
      using oc(1) oc(2) by blast
    then show "\<exists>ids s'. export_obj_glb_execute h s = (Inl e, s') \<and>
               map oid (objects s') = map oid (objects s) @ ids \<and>
               length ids = nat (numLights s) + 1 \<and> files s' = files s"
      by (rule fail)
  qed
qed

text \<open>The example scene, with a host that exports and with one whose exporter raises.\<close>

theorem export_cleanup_witness:
  "wf_scene example_scene \<and> target_object example_scene = Some example_cube \<and>
   otype example_cube = MESH \<and> isdir example_host (pathToFile example_scene) \<and>
   1 \<le> numLights example_scene \<and>
   (\<exists>s'. export_obj_glb_execute example_host example_scene = (Inr FINISHED, s') \<and>
      map oid (objects s') = [0] \<and> files s' = [''/out/Cube.glb'']) \<and>
   (\<exists>ids s'. export_obj_glb_execute export_failing_host example_scene = (Inl RuntimeError, s') \<and>
      map oid (objects s') = 0 # ids \<and> length ids = 5 \<and> files s' = [])"
proof -
  have pre: "isdir example_host (pathToFile example_scene)"
    "isdir export_failing_host (pathToFile example_scene)" "1 \<le> numLights example_scene"
    by (simp_all add: example_facts)
  have p: "path_join (pathToFile example_scene) (name example_cube @ ''.glb'') = ''/out/Cube.glb''"
    by (simp add: example_facts path_join_def)
  have ok: "(\<forall>sc. \<exists>f. bake_shadow example_host sc = Inr f) \<and>
      (\<forall>sc. export_gltf example_host ''/out/Cube.glb'' sc = None)"
    by (simp add: example_facts)
  have bad: "(\<forall>sc. bake_shadow export_failing_host sc = Inl RuntimeError) \<or>
      (\<forall>sc. \<exists>f. bake_shadow export_failing_host sc = Inr f) \<and>
      (\<forall>sc. export_gltf export_failing_host ''/out/Cube.glb'' sc = Some RuntimeError)"
    by (simp add: example_facts)
  note t1 = export_cleanup[OF wf_example_scene example_target example_facts(1) pre(1,3), unfolded p]
  note t2 = export_cleanup[OF wf_example_scene example_target example_facts(1) pre(2,3), unfolded p]
  have a: "\<exists>s'. export_obj_glb_execute example_host example_scene = (Inr FINISHED, s') \<and>
      map oid (objects s') = [0] \<and> files s' = [''/out/Cube.glb'']"
    using conjunct1[OF t1] ok by (simp add: example_facts example_cube_def)
  have b: "\<exists>ids s'. export_obj_glb_execute export_failing_host example_scene =
        (Inl RuntimeError, s') \<and>
      map oid (objects s') = 0 # ids \<and> length ids = 5 \<and> files s' = []"
    using conjunct2[OF t2] bad by (simp add: example_facts example_cube_def)
  show ?thesis
    using wf_example_scene example_target pre(1,3) a b by (simp add: example_facts)
qed

section \<open>Export of a collection\<close>

lemma lookup_object_files [simp]: "lookup_object (s\<lparr>files := F\<rparr>) i = lookup_object s i"
  by (simp add: lookup_object_def)

lemma export_loop_step:
  assumes "wf_scene s" "numLights s \<noteq> 0" "\<forall>sc. \<exists>f. bake_shadow h sc = Inr f"
    and "lookup_object s m = Some mesh" "otype mesh = MESH"
    and "\<forall>sc. export_gltf h (glb_path s m) sc = None"
  shows "\<exists>s1. export_loop h (m # ms) s = export_loop h ms s1 \<and>
      grown (s\<lparr>files := List.insert (glb_path s m) (files s)\<rparr>) [] s1"
proof -
  have gp: "glb_path s m = path_join (pathToFile s) (name mesh @ ''.glb'')"
    by (simp add: glb_path_def assms(4))
  from export_obj_outcomes(3)[OF assms(1,2), of h mesh] assms(3,6)
  obtain s1 where r: "export_obj h mesh s = (Inr (), s1) \<and>
      grown (s\<lparr>files := List.insert (glb_path s m) (files s)\<rparr>) [] s1"
    unfolding gp by blast
  have "export_loop h (m # ms) s = export_loop h ms s1"
    using conjunct1[OF r] by (simp add: assms(4,5))
  with conjunct2[OF r] have "export_loop h (m # ms) s = export_loop h ms s1 \<and>
      grown (s\<lparr>files := List.insert (glb_path s m) (files s)\<rparr>) [] s1"
    by (intro conjI)
  then show ?thesis by (rule exI)
qed

lemma step_preserves:
  assumes "grown (s\<lparr>files := F\<rparr>) [] s1" "wf_scene s"
  shows "wf_scene s1" "numLights s1 = numLights s" "files s1 = F" "reports s1 = reports s"
    "lookup_object s i = Some ob \<Longrightarrow> otype ob = MESH \<Longrightarrow>
       \<exists>ob'. lookup_object s1 i = Some ob' \<and> otype ob' = MESH"
    "lookup_object s i = Some ob \<Longrightarrow> glb_path s1 i = glb_path s i"
proof -
  have sp: "same_props (s\<lparr>files := F\<rparr>) s1" using assms(1) unfolding grown_def by blast
  note f = same_props_fields[OF sp]
  show "wf_scene s1" using wf_grown[OF _ assms(1)] assms(2) by (simp add: wf_scene_files)
  show "numLights s1 = numLights s" using f(3) by simp
  show "files s1 = F" using f(12) by simp
  show "reports s1 = reports s" using f(1) by simp
  show "\<exists>ob'. lookup_object s1 i = Some ob' \<and> otype ob' = MESH"
    if "lookup_object s i = Some ob" "otype ob = MESH"
  proof -
    from lookup_grown[OF assms(1), of i ob] that(1)
    obtain ob' where "lookup_object s1 i = Some ob' \<and> ident ob' = ident ob" by auto
    then have "lookup_object s1 i = Some ob' \<and> otype ob' = MESH"
      using that(2) by (simp add: ident_def)
    then show ?thesis by (rule exI)
  qed
  show "glb_path s1 i = glb_path s i" if "lookup_object s i = Some ob"
  proof -
    from lookup_grown[OF assms(1), of i ob] that
    obtain ob' where "lookup_object s1 i = Some ob' \<and> ident ob' = ident ob" by auto
    then show ?thesis
      using that f(2) by (simp add: glb_path_def ident_def)
  qed
qed

lemma export_loop_all:
  assumes "wf_scene s" "numLights s \<noteq> 0" "\<forall>sc. \<exists>f. bake_shadow h sc = Inr f"
    and "\<forall>m \<in> set ms. (\<exists>mesh. lookup_object s m = Some mesh \<and> otype mesh = MESH) \<and>
           (\<forall>sc. export_gltf h (glb_path s m) sc = None)"
  shows "\<exists>s'. export_loop h ms s = (Inr FINISHED, s') \<and>
      grown (s\<lparr>files := fold (\<lambda>m. List.insert (glb_path s m)) ms (files s)\<rparr>) [] s'"
  using assms
proof (induction ms arbitrary: s)
  case Nil
  have "export_loop h [] s = (Inr FINISHED, s) \<and>
      grown (s\<lparr>files := fold (\<lambda>m. List.insert (glb_path s m)) [] (files s)\<rparr>) [] s"
    by (simp add: grown_refl)
  then show ?case by (rule exI)
next
  case (Cons m ms)
  from Cons.prems(4) obtain mesh where me: "lookup_object s m = Some mesh" "otype mesh = MESH"
    and ok: "\<forall>sc. export_gltf h (glb_path s m) sc = None" by auto
  define F where "F = List.insert (glb_path s m) (files s)"
  from export_loop_step[OF Cons.prems(1-3) me ok, of ms]
  obtain s1 where st: "export_loop h (m # ms) s = export_loop h ms s1 \<and>
      grown (s\<lparr>files := F\<rparr>) [] s1" unfolding F_def ..
  note g1 = conjunct2[OF st]
  note p = step_preserves[OF g1 Cons.prems(1)]
  have nl: "numLights s1 \<noteq> 0" using p(2) Cons.prems(2) by simp
  have same: "glb_path s1 m' = glb_path s m'" if "m' \<in> set ms" for m'
  proof -
    from Cons.prems(4) that obtain ob where "lookup_object s m' = Some ob" by auto
    then show ?thesis by (rule p(6))
  qed
  have mem: "\<forall>m' \<in> set ms. (\<exists>mesh. lookup_object s1 m' = Some mesh \<and> otype mesh = MESH) \<and>
           (\<forall>sc. export_gltf h (glb_path s1 m') sc = None)"
  proof
    fix m' assume in_ms: "m' \<in> set ms"
    with Cons.prems(4) obtain ob where o: "lookup_object s m' = Some ob" "otype ob = MESH"
      and e: "\<forall>sc. export_gltf h (glb_path s m') sc = None" by auto
    show "(\<exists>mesh. lookup_object s1 m' = Some mesh \<and> otype mesh = MESH) \<and>
           (\<forall>sc. export_gltf h (glb_path s1 m') sc = None)"
      using p(5)[OF o] e same[OF in_ms] by simp
  qed
  from Cons.IH[OF p(1) nl Cons.prems(3) mem]
  obtain s' where ih: "export_loop h ms s1 = (Inr FINISHED, s') \<and>
      grown (s1\<lparr>files := fold (\<lambda>m. List.insert (glb_path s1 m)) ms (files s1)\<rparr>) [] s'" ..
  have fo: "fold (\<lambda>m. List.insert (glb_path s1 m)) ms (files s1) =
            fold (\<lambda>m. List.insert (glb_path s m)) ms F"
    unfolding p(3) by (rule fold_cong) (simp_all add: same)
  define G where "G = fold (\<lambda>m. List.insert (glb_path s m)) ms F"
  have g2: "grown (s1\<lparr>files := G\<rparr>) [] s'"
    using conjunct2[OF ih] unfolding fo G_def .
  have g1': "grown (s\<lparr>files := G\<rparr>) [] (s1\<lparr>files := G\<rparr>)"
    using grown_files[OF g1, of G] by simp
  have "export_loop h (m # ms) s = (Inr FINISHED, s') \<and>
      grown (s\<lparr>files := fold (\<lambda>m. List.insert (glb_path s m)) (m # ms) (files s)\<rparr>) [] s'"
    using conjunct1[OF st] conjunct1[OF ih] grown_nil_trans[OF g1' g2]
    by (simp add: G_def F_def)
  then show ?case by (rule exI)
qed

lemma export_loop_raises:
  assumes "wf_scene s" "numLights s \<noteq> 0" "\<forall>sc. \<exists>f. bake_shadow h sc = Inr f"
    and "\<forall>m' \<in> set pre. (\<exists>mesh. lookup_object s m' = Some mesh \<and> otype mesh = MESH) \<and>
           (\<forall>sc. export_gltf h (glb_path s m') sc = None)"
    and "\<exists>mesh. lookup_object s m = Some mesh \<and> otype mesh = MESH"
    and "\<forall>sc. export_gltf h (glb_path s m) sc = Some e"
  shows "\<exists>s'. export_loop h (pre @ m # post) s = (Inl e, s') \<and>
      files s' = fold (\<lambda>m. List.insert (glb_path s m)) pre (files s) \<and> reports s' = reports s"
  using assms
proof (induction pre arbitrary: s)
  case Nil
  from Nil.prems(5) obtain mesh where me: "lookup_object s m = Some mesh" "otype mesh = MESH"
    by auto
  have gp: "glb_path s m = path_join (pathToFile s) (name mesh @ ''.glb'')"
    by (simp add: glb_path_def me(1))
  from export_obj_outcomes(2)[OF Nil.prems(1,2), of h mesh] Nil.prems(3,6)
  obtain ids where "\<exists>s'. export_obj h mesh s = (Inl e, s') \<and> grown s ids s' \<and>
      length ids = Suc (nat (numLights s))"
    unfolding gp by blast
  then obtain s' where r: "export_obj h mesh s = (Inl e, s') \<and> grown s ids s' \<and>
      length ids = Suc (nat (numLights s))" ..
  have sp: "same_props s s'" using conjunct1[OF conjunct2[OF r]] unfolding grown_def by blast
  have "export_loop h ([] @ m # post) s = (Inl e, s') \<and>
      files s' = fold (\<lambda>m. List.insert (glb_path s m)) [] (files s) \<and> reports s' = reports s"
    using conjunct1[OF r] same_props_fields(1,12)[OF sp] by (simp add: me)
  then show ?case by (rule exI)
next
  case (Cons a pre)
  from Cons.prems(4) obtain mesh where me: "lookup_object s a = Some mesh" "otype mesh = MESH"
    and ok: "\<forall>sc. export_gltf h (glb_path s a) sc = None" by auto
  define F where "F = List.insert (glb_path s a) (files s)"
  from export_loop_step[OF Cons.prems(1-3) me ok, of "pre @ m # post"]
  obtain s1 where st: "export_loop h (a # pre @ m # post) s = export_loop h (pre @ m # post) s1 \<and>
      grown (s\<lparr>files := F\<rparr>) [] s1" unfolding F_def ..
  note g1 = conjunct2[OF st]
  note p = step_preserves[OF g1 Cons.prems(1)]
  have nl: "numLights s1 \<noteq> 0" using p(2) Cons.prems(2) by simp
  have same: "glb_path s1 m' = glb_path s m'" if "m' \<in> set (m # pre)" for m'
  proof -
    from Cons.prems(4,5) that obtain ob where "lookup_object s m' = Some ob" by auto
    then show ?thesis by (rule p(6))
  qed
  have mem: "\<forall>m' \<in> set pre. (\<exists>mesh. lookup_object s1 m' = Some mesh \<and> otype mesh = MESH) \<and>
           (\<forall>sc. export_gltf h (glb_path s1 m') sc = None)"
  proof
    fix m' assume in_pre: "m' \<in> set pre"
    with Cons.prems(4) obtain ob where o: "lookup_object s m' = Some ob" "otype ob = MESH"
      and e: "\<forall>sc. export_gltf h (glb_path s m') sc = None" by auto
    show "(\<exists>mesh. lookup_object s1 m' = Some mesh \<and> otype mesh = MESH) \<and>
           (\<forall>sc. export_gltf h (glb_path s1 m') sc = None)"
      using p(5)[OF o] e same[of m'] in_pre by simp
  qed
  from Cons.prems(5) obtain mo where mo: "lookup_object s m = Some mo" "otype mo = MESH" by auto
  have m1: "\<exists>mesh. lookup_object s1 m = Some mesh \<and> otype mesh = MESH"
    using p(5)[OF mo] .
  have bad: "\<forall>sc. export_gltf h (glb_path s1 m) sc = Some e"
    using Cons.prems(6) same[of m] by simp
  from Cons.IH[OF p(1) nl Cons.prems(3) mem m1 bad]
  obtain s' where ih: "export_loop h (pre @ m # post) s1 = (Inl e, s') \<and>
      files s' = fold (\<lambda>m. List.insert (glb_path s1 m)) pre (files s1) \<and>
      reports s' = reports s1" ..
  have fo: "fold (\<lambda>m. List.insert (glb_path s1 m)) pre (files s1) =
            fold (\<lambda>m. List.insert (glb_path s m)) pre F"
    unfolding p(3) by (rule fold_cong) (simp_all add: same)
  have "export_loop h ((a # pre) @ m # post) s = (Inl e, s') \<and>
      files s' = fold (\<lambda>m. List.insert (glb_path s m)) (a # pre) (files s) \<and>
      reports s' = reports s"
    using conjunct1[OF st] ih fo p(4) by (simp add: F_def)
  then show ?case by (rule exI)
qed

lemma lookup_object_mode_set [simp]: "lookup_object (mode_set_object s) i = lookup_object s i"
  by (simp add: lookup_object_def mode_set_object_def)

lemma export_collection_as_loop:
  assumes "Collection s = Some all_objects" "all_objects \<noteq> []" "isdir h (pathToFile s)"
  shows "export_collection_glb_execute h s =
     export_loop h (mesh_members s all_objects)
       (if mode s \<noteq> OBJECT then mode_set_object s else s)"
  using assms by (simp add: export_collection_glb_execute_def mesh_members_def Let_def)

lemma mesh_members_mesh:
  assumes "m \<in> set (mesh_members s all_objects)"
  shows "\<exists>mesh. lookup_object s m = Some mesh \<and> otype mesh = MESH"
  using assms by (auto simp: mesh_members_def split: option.splits)

lemma glb_path_mode_set [simp]: "glb_path (mode_set_object s) i = glb_path s i"
  by (simp add: glb_path_def mode_set_object_def lookup_object_def split: option.splits)

lemma collection_facts:
  "wf_scene collection_scene" "Collection collection_scene = Some [0, 1, 2]"
  "numLights collection_scene = 4" "mode collection_scene = OBJECT"
  "pathToFile collection_scene = ''/out''" "files collection_scene = []"
  "reports collection_scene = []" "measurements collection_scene = ''Table''"
  "mesh_members collection_scene [0, 1, 2] = [0, 1, 2]"
  "glb_path collection_scene 0 = ''/out/A.glb''"
  "glb_path collection_scene (Suc 0) = ''/out/B.glb''"
  "glb_path collection_scene 2 = ''/out/C.glb''"
  by (simp_all add: collection_scene_def example_scene_def example_cube_def wf_scene_def
      mesh_members_def glb_path_def lookup_object_def path_join_def)

lemma host_facts:
  "isdir example_host ''/out''" "isdir first_failing_host ''/out''"
  "\<forall>sc. \<exists>f. bake_shadow example_host sc = Inr f"
  "\<forall>sc. \<exists>f. bake_shadow first_failing_host sc = Inr f"
  "export_gltf example_host p sc = None"
  "export_gltf first_failing_host p sc = (if p = ''/out/A.glb'' then Some RuntimeError else None)"
  by (simp_all add: example_host_def first_failing_host_def)

text \<open>
  Claim C4 says that a member that fails validation is skipped with an error, the others
  being exported, and that a failing export does not stop the loop.  In the collection of
  three meshes the second is outside the height range of the preset; all three files are
  written and nothing is reported.  With the exporter raising on the first member only, the
  operator ends with that exception and no file is written: the other two members are never
  reached.
\<close>

theorem collection_export_counterexample:
  "within_range (measurements collection_scene)
     (example_cube\<lparr>oid := 0, name := ''A'', dimensions := (1, 1, 3 / 4)\<rparr>) \<and>
   \<not> within_range (measurements collection_scene)
     (example_cube\<lparr>oid := 1, name := ''B'', dimensions := (1, 1, 2)\<rparr>) \<and>
   within_range (measurements collection_scene)
     (example_cube\<lparr>oid := 2, name := ''C'', dimensions := (1, 1, 3 / 4)\<rparr>) \<and>
   fst (export_collection_glb_execute example_host collection_scene) = Inr FINISHED \<and>
   files (snd (export_collection_glb_execute example_host collection_scene)) =
     [''/out/C.glb'', ''/out/B.glb'', ''/out/A.glb''] \<and>
   reports (snd (export_collection_glb_execute example_host collection_scene)) = [] \<and>
   fst (export_collection_glb_execute first_failing_host collection_scene) = Inl RuntimeError \<and>
   files (snd (export_collection_glb_execute first_failing_host collection_scene)) = []"
proof -
  have rng: "within_range (measurements collection_scene)
       (example_cube\<lparr>oid := 0, name := ''A'', dimensions := (1, 1, 3 / 4)\<rparr>)"
    "\<not> within_range (measurements collection_scene)
       (example_cube\<lparr>oid := 1, name := ''B'', dimensions := (1, 1, 2)\<rparr>)"
    "within_range (measurements collection_scene)
       (example_cube\<lparr>oid := 2, name := ''C'', dimensions := (1, 1, 3 / 4)\<rparr>)"
    by (simp_all add: within_range_def MEASUREMENTS_def collection_facts)
  have nl: "numLights collection_scene \<noteq> 0" by (simp add: collection_facts)
  have "export_collection_glb_execute example_host collection_scene =
      export_loop example_host (mesh_members collection_scene [0, 1, 2])
        (if mode collection_scene \<noteq> OBJECT then mode_set_object collection_scene
         else collection_scene)"
    by (rule export_collection_as_loop[OF collection_facts(2)])
       (simp_all add: collection_facts(5) host_facts)
  then have l1: "export_collection_glb_execute example_host collection_scene =
      export_loop example_host [0, 1, 2] collection_scene"
    by (simp only: collection_facts(9) collection_facts(4) simp_thms if_False)
  have "export_collection_glb_execute first_failing_host collection_scene =
      export_loop first_failing_host (mesh_members collection_scene [0, 1, 2])
        (if mode collection_scene \<noteq> OBJECT then mode_set_object collection_scene
         else collection_scene)"
    by (rule export_collection_as_loop[OF collection_facts(2)])
       (simp_all add: collection_facts(5) host_facts)
  then have l2: "export_collection_glb_execute first_failing_host collection_scene =
      export_loop first_failing_host [0, 1, 2] collection_scene"
    by (simp only: collection_facts(9) collection_facts(4) simp_thms if_False)
  have mem: "\<forall>m \<in> set [0, 1, 2].
      (\<exists>mesh. lookup_object collection_scene m = Some mesh \<and> otype mesh = MESH) \<and>
      (\<forall>sc. export_gltf example_host (glb_path collection_scene m) sc = None)"
  proof
    fix m :: nat assume "m \<in> set [0, 1, 2]"
    then have "m \<in> set (mesh_members collection_scene [0, 1, 2])"
      by (simp only: collection_facts(9))
    from mesh_members_mesh[OF this]
    show "(\<exists>mesh. lookup_object collection_scene m = Some mesh \<and> otype mesh = MESH) \<and>
      (\<forall>sc. export_gltf example_host (glb_path collection_scene m) sc = None)"
      by (simp add: host_facts)
  qed
  from export_loop_all[OF collection_facts(1) nl host_facts(3) mem]
  obtain s' where a: "export_loop example_host [0, 1, 2] collection_scene = (Inr FINISHED, s') \<and>
      grown (collection_scene\<lparr>files := fold (\<lambda>m. List.insert (glb_path collection_scene m))
               [0, 1, 2] (files collection_scene)\<rparr>) [] s'" ..
  have sp: "same_props (collection_scene\<lparr>files := fold (\<lambda>m. List.insert (glb_path collection_scene m))
               [0, 1, 2] (files collection_scene)\<rparr>) s'"
    using conjunct2[OF a] unfolding grown_def by blast
  have ok: "fst (export_collection_glb_execute example_host collection_scene) = Inr FINISHED"
    "files (snd (export_collection_glb_execute example_host collection_scene)) =
       [''/out/C.glb'', ''/out/B.glb'', ''/out/A.glb'']"
    "reports (snd (export_collection_glb_execute example_host collection_scene)) = []"
    using conjunct1[OF a] same_props_fields(1,12)[OF sp]
    by (simp_all add: l1 collection_facts del: export_loop.simps)
  have m0: "\<exists>mesh. lookup_object collection_scene 0 = Some mesh \<and> otype mesh = MESH"
  proof -
    have "0 \<in> set (mesh_members collection_scene [0, 1, 2])"
      by (simp only: collection_facts(9)) simp
    from mesh_members_mesh[OF this] show ?thesis .
  qed
  have bad: "\<forall>sc. export_gltf first_failing_host (glb_path collection_scene 0) sc =
      Some RuntimeError"
    by (simp add: collection_facts host_facts)
  from export_loop_raises[OF collection_facts(1) nl host_facts(4) _ m0 bad, of "[]" "[1, 2]"]
  obtain s'' where b: "export_loop first_failing_host ([] @ 0 # [1, 2]) collection_scene =
        (Inl RuntimeError, s'') \<and>
      files s'' = fold (\<lambda>m. List.insert (glb_path collection_scene m)) [] (files collection_scene) \<and>
      reports s'' = reports collection_scene"
    by auto
  have ko: "fst (export_collection_glb_execute first_failing_host collection_scene) =
      Inl RuntimeError"
    "files (snd (export_collection_glb_execute first_failing_host collection_scene)) = []"
    using b by (simp_all add: l2 collection_facts del: export_loop.simps)
  show ?thesis
    using rng ok ko by (intro conjI)
qed


text \<open>
  Claim C4, amended.  With a non-empty collection, an existing folder, at least one light and
  a bake that returns normally, the operator exports the mesh members of the collection in
  order, whatever their height.  When every export returns normally, the operator finishes,
  one file per mesh member is written and nothing is reported.  When the export of a member
  raises, the operator ends with that exception: the files of the members before it are
  written, the members after it are not processed, and nothing is reported.
\<close>

theorem collection_export:
  assumes "wf_scene s" "Collection s = Some all_objects" "all_objects \<noteq> []"
    "isdir h (pathToFile s)" "1 \<le> numLights s" "\<forall>sc. \<exists>f. bake_shadow h sc = Inr f"
  shows "((\<forall>m \<in> set (mesh_members s all_objects). \<forall>sc. export_gltf h (glb_path s m) sc = None) \<longrightarrow>
            (\<exists>s'. export_collection_glb_execute h s = (Inr FINISHED, s') \<and>
               files s' = fold (\<lambda>m. List.insert (glb_path s m)) (mesh_members s all_objects)
                            (files s) \<and>
               reports s' = reports s)) \<and>
         (\<forall>pre m post e.
            mesh_members s all_objects = pre @ m # post \<and>
            (\<forall>m' \<in> set pre. \<forall>sc. export_gltf h (glb_path s m') sc = None) \<and>
            (\<forall>sc. export_gltf h (glb_path s m) sc = Some e) \<longrightarrow>
            (\<exists>s'. export_collection_glb_execute h s = (Inl e, s') \<and>
               files s' = fold (\<lambda>m. List.insert (glb_path s m)) pre (files s) \<and>
               reports s' = reports s))"
proof -
  define s0 where "s0 = (if mode s \<noteq> OBJECT then mode_set_object s else s)"
  define ms where "ms = mesh_members s all_objects"
  have run: "export_collection_glb_execute h s = export_loop h ms s0"
    unfolding s0_def ms_def by (rule export_collection_as_loop[OF assms(2-4)])
  have s0: "wf_scene s0" "numLights s0 \<noteq> 0" "files s0 = files s" "reports s0 = reports s"
    using assms(1,5) by (simp_all add: s0_def) (simp_all add: mode_set_object_def wf_scene_def)
  have lk: "lookup_object s0 i = lookup_object s i" for i by (simp add: s0_def)
  have gp: "glb_path s0 = glb_path s" by (rule ext) (simp add: s0_def)
  have mesh: "\<exists>mesh. lookup_object s0 m = Some mesh \<and> otype mesh = MESH" if "m \<in> set ms" for m
    using mesh_members_mesh[of m s all_objects] that unfolding ms_def lk .
  show ?thesis
  proof (intro conjI allI impI)
    assume a: "\<forall>m \<in> set (mesh_members s all_objects). \<forall>sc. export_gltf h (glb_path s m) sc = None"
    have mem: "\<forall>m \<in> set ms. (\<exists>mesh. lookup_object s0 m = Some mesh \<and> otype mesh = MESH) \<and>
           (\<forall>sc. export_gltf h (glb_path s0 m) sc = None)"
      using a mesh unfolding gp ms_def by simp
    from export_loop_all[OF s0(1,2) assms(6) mem]
    obtain s' where r: "export_loop h ms s0 = (Inr FINISHED, s') \<and>
        grown (s0\<lparr>files := fold (\<lambda>m. List.insert (glb_path s0 m)) ms (files s0)\<rparr>) [] s'" ..
    have sp: "same_props (s0\<lparr>files := fold (\<lambda>m. List.insert (glb_path s0 m)) ms (files s0)\<rparr>) s'"
      using conjunct2[OF r] unfolding grown_def by blast
    have "export_collection_glb_execute h s = (Inr FINISHED, s') \<and>
               files s' = fold (\<lambda>m. List.insert (glb_path s m)) ms (files s) \<and>
               reports s' = reports s"
      using conjunct1[OF r] same_props_fields(1,12)[OF sp] s0(3,4) unfolding gp
      by (simp add: run)
    then show "\<exists>s'. export_collection_glb_execute h s = (Inr FINISHED, s') \<and>
               files s' = fold (\<lambda>m. List.insert (glb_path s m)) (mesh_members s all_objects)
                            (files s) \<and>
               reports s' = reports s"
      unfolding ms_def by (rule exI)
  next
    fix pre m post e
    assume a: "mesh_members s all_objects = pre @ m # post \<and>
            (\<forall>m' \<in> set pre. \<forall>sc. export_gltf h (glb_path s m') sc = None) \<and>
            (\<forall>sc. export_gltf h (glb_path s m) sc = Some e)"
    have split: "ms = pre @ m # post" using a by (simp add: ms_def)
    have mem: "\<forall>m' \<in> set pre. (\<exists>mesh. lookup_object s0 m' = Some mesh \<and> otype mesh = MESH) \<and>
           (\<forall>sc. export_gltf h (glb_path s0 m') sc = None)"
      using a mesh unfolding gp split by simp
    have mm: "\<exists>mesh. lookup_object s0 m = Some mesh \<and> otype mesh = MESH"
      using mesh[of m] unfolding split by simp
    have bad: "\<forall>sc. export_gltf h (glb_path s0 m) sc = Some e"
      using a unfolding gp by simp
    from export_loop_raises[OF s0(1,2) assms(6) mem mm bad, of post]
    obtain s' where r: "export_loop h (pre @ m # post) s0 = (Inl e, s') \<and>
        files s' = fold (\<lambda>m. List.insert (glb_path s0 m)) pre (files s0) \<and>
        reports s' = reports s0" ..
    have "export_collection_glb_execute h s = (Inl e, s') \<and>
               files s' = fold (\<lambda>m. List.insert (glb_path s m)) pre (files s) \<and>
               reports s' = reports s"
      using r s0(3,4) unfolding gp by (simp add: run split)
    then show "\<exists>s'. export_collection_glb_execute h s = (Inl e, s') \<and>
               files s' = fold (\<lambda>m. List.insert (glb_path s m)) pre (files s) \<and>
               reports s' = reports s"
      by (rule exI)
  qed
qed

text \<open>The collection of three meshes, with the two hosts.\<close>

theorem collection_export_witness:
  "wf_scene collection_scene \<and> Collection collection_scene = Some [0, 1, 2] \<and>
   isdir example_host (pathToFile collection_scene) \<and> 1 \<le> numLights collection_scene \<and>
   (\<exists>s'. export_collection_glb_execute example_host collection_scene = (Inr FINISHED, s') \<and>
      files s' = [''/out/C.glb'', ''/out/B.glb'', ''/out/A.glb''] \<and> reports s' = []) \<and>
   (\<exists>s'. export_collection_glb_execute first_failing_host collection_scene =
        (Inl RuntimeError, s') \<and>
      files s' = [] \<and> reports s' = [])"
proof -
  have pre: "[0, 1, 2 :: nat] \<noteq> []" "isdir example_host (pathToFile collection_scene)"
    "isdir first_failing_host (pathToFile collection_scene)" "1 \<le> numLights collection_scene"
    by (simp_all add: collection_facts host_facts)
  note t1 = collection_export[OF collection_facts(1,2) pre(1,2,4) host_facts(3),
      unfolded collection_facts(9)]
  note t2 = collection_export[OF collection_facts(1,2) pre(1,3,4) host_facts(4),
      unfolded collection_facts(9)]
  have a: "\<exists>s'. export_collection_glb_execute example_host collection_scene = (Inr FINISHED, s') \<and>
      files s' = [''/out/C.glb'', ''/out/B.glb'', ''/out/A.glb''] \<and> reports s' = []"
    using conjunct1[OF t1] by (simp add: collection_facts host_facts)
  have "[0, 1, 2] = [] @ 0 # [1, 2 :: nat] \<and>
      (\<forall>m' \<in> set []. \<forall>sc. export_gltf first_failing_host (glb_path collection_scene m') sc = None) \<and>
      (\<forall>sc. export_gltf first_failing_host (glb_path collection_scene 0) sc = Some RuntimeError)"
    by (simp add: collection_facts host_facts)
  with conjunct2[OF t2] have "\<exists>s'. export_collection_glb_execute first_failing_host collection_scene =
        (Inl RuntimeError, s') \<and>
      files s' = fold (\<lambda>m. List.insert (glb_path collection_scene m)) [] (files collection_scene) \<and>
      reports s' = reports collection_scene"
    by blast
  then have b: "\<exists>s'. export_collection_glb_execute first_failing_host collection_scene =
        (Inl RuntimeError, s') \<and>
      files s' = [] \<and> reports s' = []"
    by (simp add: collection_facts)
  show ?thesis
    using collection_facts(1,2) pre(2,4) a b by (intro conjI)
qed

end
